theory Spec2Isabelle
  imports Main "HOL-Library.AList"
begin

section \<open>Conventions\<close>

text \<open>
  A JavaScript string is modelled as a \<^typ>\<open>string\<close>, one \<^typ>\<open>char\<close> per code unit
  (so the model covers the strings whose code units are below 256). A JavaScript
  \<open>Map\<close> is an association list in insertion order: \<open>set\<close> on a key that is present
  keeps the key's position, \<open>set\<close> on a new key appends, \<open>delete\<close> removes the entry.
  Instants (\<open>Date\<close>, \<open>Date.now()\<close>) are integers, in milliseconds. Calls to the logger
  change no state that the program reads and are left out; only the warning of
  \<open>validateCommand\<close> is kept, in its result.
\<close>

definition js_set :: "'k \<Rightarrow> 'v \<Rightarrow> ('k \<times> 'v) list \<Rightarrow> ('k \<times> 'v) list" where
  "js_set k v m = AList.update k v m"

definition js_delete :: "'k \<Rightarrow> ('k \<times> 'v) list \<Rightarrow> ('k \<times> 'v) list" where
  "js_delete k m = AList.delete k m"

definition js_get :: "('k \<times> 'v) list \<Rightarrow> 'k \<Rightarrow> 'v option" where
  "js_get m k = map_of m k"

text \<open>\<open>s.startsWith(p)\<close>, \<open>s.includes(c)\<close> for a one-character \<open>c\<close>, and \<open>s.split(c)\<close>.\<close>

definition startsWith :: "string \<Rightarrow> string \<Rightarrow> bool" where
  "startsWith s p = (take (length p) s = p)"

definition includes_char :: "string \<Rightarrow> char \<Rightarrow> bool" where
  "includes_char s c = (c \<in> set s)"

fun split_acc :: "char \<Rightarrow> string \<Rightarrow> string \<Rightarrow> string list" where
  "split_acc c acc [] = [rev acc]"
| "split_acc c acc (x # xs) =
     (if x = c then rev acc # split_acc c [] xs else split_acc c (x # acc) xs)"

definition split :: "char \<Rightarrow> string \<Rightarrow> string list" where
  "split c s = split_acc c [] s"

text \<open>
  The white space of \<open>String.prototype.trim\<close> and of \<open>parseInt\<close>, among the code units
  below 256: TAB, LF, VT, FF, CR, SP and NBSP.
\<close>

definition js_space :: "char \<Rightarrow> bool" where
  "js_space c = (of_char c \<in> {9, 10, 11, 12, 13, 32, 160 :: nat})"

definition is_digit :: "char \<Rightarrow> bool" where
  "is_digit c = (48 \<le> (of_char c :: nat) \<and> (of_char c :: nat) \<le> 57)"

definition digit_val :: "char \<Rightarrow> int" where
  "digit_val c = int (of_char c) - 48"

text \<open>
  \<open>parseInt(s, 10)\<close>: leading white space is skipped, a sign is read, then the longest
  run of decimal digits; \<open>None\<close> is \<open>NaN\<close> (no digit).
\<close>

definition digits_value :: "string \<Rightarrow> int" where
  "digits_value ds = foldl (\<lambda>n c. 10 * n + digit_val c) 0 ds"

definition parse_digits :: "string \<Rightarrow> int option" where
  "parse_digits s =
     (let ds = takeWhile is_digit s in if ds = [] then None else Some (digits_value ds))"

definition parseInt :: "string \<Rightarrow> int option" where
  "parseInt s =
     (case dropWhile js_space s of
        [] \<Rightarrow> None
      | c # cs \<Rightarrow>
          if c = CHR ''-'' then map_option uminus (parse_digits cs)
          else if c = CHR ''+'' then parse_digits cs
          else parse_digits (c # cs))"

text \<open>The decimal text of an integer, as a template literal renders a number.\<close>

definition digit_char :: "nat \<Rightarrow> char" where
  "digit_char d = char_of (48 + d)"

function show_nat :: "nat \<Rightarrow> string" where
  "show_nat n = (if n < 10 then [digit_char n] else show_nat (n div 10) @ [digit_char (n mod 10)])"
  by pat_completeness auto
termination
  by (relation "measure id") auto

definition show_int :: "int \<Rightarrow> string" where
  "show_int i = (if i < 0 then CHR ''-'' # show_nat (nat (- i)) else show_nat (nat i))"

section \<open>PaneIdResolver (class PaneIdResolver of src/utils/errors.ts)\<close>

text \<open>
  \<open>windowIndex\<close> and \<open>paneIndex\<close> are integers. \<open>registerPane\<close> builds one mapping object
  and stores it under both maps, and \<open>updateLastSeen\<close> mutates the object it finds under
  \<open>nativeToStructured\<close>; so the objects live in a store (\<open>objects\<close>, an object's address is
  its index) and the two maps hold addresses. An address that is not allocated reads as
  \<open>undefined\<close>; no operation creates one.
\<close>

record PaneMapping =
  nativeId :: string
  structuredId :: string
  sessionName :: string
  windowIndex :: int
  paneIndex :: int
  lastSeen :: int

record PaneIdResolver =
  objects :: "PaneMapping list"
  nativeToStructured :: "(string \<times> nat) list"
  structuredToNative :: "(string \<times> nat) list"

definition new_resolver :: PaneIdResolver where
  "new_resolver = \<lparr>objects = [], nativeToStructured = [], structuredToNative = []\<rparr>"

definition deref :: "PaneMapping list \<Rightarrow> nat \<Rightarrow> PaneMapping option" where
  "deref h a = (if a < length h then Some (h ! a) else None)"

definition native_get :: "PaneIdResolver \<Rightarrow> string \<Rightarrow> PaneMapping option" where
  "native_get r k =
     (case js_get (nativeToStructured r) k of None \<Rightarrow> None | Some a \<Rightarrow> deref (objects r) a)"

definition structured_get :: "PaneIdResolver \<Rightarrow> string \<Rightarrow> PaneMapping option" where
  "structured_get r k =
     (case js_get (structuredToNative r) k of None \<Rightarrow> None | Some a \<Rightarrow> deref (objects r) a)"

definition buildStructuredId :: "string \<Rightarrow> int \<Rightarrow> int \<Rightarrow> string" where
  "buildStructuredId s w p = s @ '':'' @ show_int w @ ''.'' @ show_int p"

definition registerPane ::
  "PaneIdResolver \<Rightarrow> int \<Rightarrow> string \<Rightarrow> string \<Rightarrow> int \<Rightarrow> int \<Rightarrow> string \<times> PaneIdResolver" where
  "registerPane r now nid s w p =
     (let sid = buildStructuredId s w p;
          mapping = \<lparr>nativeId = nid, structuredId = sid, sessionName = s,
                     windowIndex = w, paneIndex = p, lastSeen = now\<rparr>;
          a = length (objects r);
          n2s = (case structured_get r sid of
                   None \<Rightarrow> nativeToStructured r
                 | Some existing \<Rightarrow>
                     if nativeId existing \<noteq> nid
                     then js_delete (nativeId existing) (nativeToStructured r)
                     else nativeToStructured r)
      in (sid, \<lparr>objects = objects r @ [mapping],
                 nativeToStructured = js_set nid a n2s,
                 structuredToNative = js_set sid a (structuredToNative r)\<rparr>))"

definition updateLastSeen :: "PaneIdResolver \<Rightarrow> int \<Rightarrow> string \<Rightarrow> PaneIdResolver" where
  "updateLastSeen r now nid =
     (case js_get (nativeToStructured r) nid of
        None \<Rightarrow> r
      | Some a \<Rightarrow>
          (case deref (objects r) a of
             None \<Rightarrow> r
           | Some m \<Rightarrow> r\<lparr>objects := (objects r)[a := m\<lparr>lastSeen := now\<rparr>]\<rparr>))"

text \<open>The values of \<open>nativeToStructured\<close>, in the map's order.\<close>

definition native_values :: "PaneIdResolver \<Rightarrow> PaneMapping list" where
  "native_values r = List.map_filter (\<lambda>(k, a). deref (objects r) a) (nativeToStructured r)"

definition attemptStructuredResolution :: "PaneIdResolver \<Rightarrow> string \<Rightarrow> string option" where
  "attemptStructuredResolution r sid =
     (case split CHR '':'' sid of
        [s, windowPane] \<Rightarrow>
          (case split CHR ''.'' windowPane of
             [ws, ps] \<Rightarrow>
               (case (parseInt ws, parseInt ps) of
                  (Some w, Some p) \<Rightarrow>
                    (case filter (\<lambda>m. sessionName m = s \<and> windowIndex m = w \<and> paneIndex m = p)
                            (native_values r) of
                       [] \<Rightarrow> None
                     | m # _ \<Rightarrow> Some (nativeId m))
                | _ \<Rightarrow> None)
           | _ \<Rightarrow> None)
      | _ \<Rightarrow> None)"

text \<open>
  \<open>if (resolvedNative)\<close> takes the empty string for a miss, as it does \<open>null\<close>; the
  fallback returns the pane id as it came.
\<close>

definition resolveToNative :: "PaneIdResolver \<Rightarrow> int \<Rightarrow> string \<Rightarrow> string \<times> PaneIdResolver" where
  "resolveToNative r now paneId =
     (if startsWith paneId ''%'' then (paneId, updateLastSeen r now paneId)
      else
        (case structured_get r paneId of
           Some m \<Rightarrow> (nativeId m, updateLastSeen r now (nativeId m))
         | None \<Rightarrow>
             (if includes_char paneId CHR '':'' \<and> includes_char paneId CHR ''.''
              then (case attemptStructuredResolution r paneId of
                      None \<Rightarrow> (paneId, r)
                    | Some n \<Rightarrow> if n = [] then (paneId, r) else (n, r))
              else (paneId, r))))"

definition resolveToStructured :: "PaneIdResolver \<Rightarrow> int \<Rightarrow> string \<Rightarrow> string \<times> PaneIdResolver" where
  "resolveToStructured r now paneId =
     (if \<not> startsWith paneId ''%'' then (paneId, r)
      else
        (case native_get r paneId of
           Some m \<Rightarrow> (structuredId m, updateLastSeen r now paneId)
         | None \<Rightarrow> (paneId, r)))"

definition getSessionMappings :: "PaneIdResolver \<Rightarrow> string \<Rightarrow> PaneMapping list" where
  "getSessionMappings r s = filter (\<lambda>m. sessionName m = s) (native_values r)"

definition clearSession :: "PaneIdResolver \<Rightarrow> string \<Rightarrow> PaneIdResolver" where
  "clearSession r s =
     foldl (\<lambda>r' m. r'\<lparr>nativeToStructured := js_delete (nativeId m) (nativeToStructured r'),
                       structuredToNative := js_delete (structuredId m) (structuredToNative r')\<rparr>)
       r (getSessionMappings r s)"

text \<open>
  The mappings that remain in each direction, and their count as \<open>getStats\<close> reports it
  (\<open>totalMappings\<close>).
\<close>

definition structured_values :: "PaneIdResolver \<Rightarrow> PaneMapping list" where
  "structured_values r = List.map_filter (\<lambda>(k, a). deref (objects r) a) (structuredToNative r)"

definition totalMappings :: "PaneIdResolver \<Rightarrow> nat" where
  "totalMappings r = length (native_values r)"

text \<open>
  A pair of a native handle and a structured id is live when each map holds it: the
  mapping under the handle has this structured id, and the mapping under the structured
  id has this handle.
\<close>

definition live :: "PaneIdResolver \<Rightarrow> string \<Rightarrow> string \<Rightarrow> bool" where
  "live r h sid =
     ((case native_get r h of None \<Rightarrow> False | Some m \<Rightarrow> structuredId m = sid) \<and>
      (case structured_get r sid of None \<Rightarrow> False | Some m \<Rightarrow> nativeId m = h))"

text \<open>
  The two compositions of the resolution operations. Each call may refresh \<open>lastSeen\<close>,
  so the second call runs in the state that the first one leaves.
\<close>

definition roundtrip_from_native :: "PaneIdResolver \<Rightarrow> int \<Rightarrow> int \<Rightarrow> string \<Rightarrow> string" where
  "roundtrip_from_native r t1 t2 h =
     (case resolveToStructured r t1 h of (sid, r1) \<Rightarrow> fst (resolveToNative r1 t2 sid))"

definition roundtrip_from_structured :: "PaneIdResolver \<Rightarrow> int \<Rightarrow> int \<Rightarrow> string \<Rightarrow> string" where
  "roundtrip_from_structured r t1 t2 sid =
     (case resolveToNative r t1 sid of (h, r1) \<Rightarrow> fst (resolveToStructured r1 t2 h))"

text \<open>
  Pane \<open>%1\<close> is listed at \<open>a:0.0\<close> and later, after its window has moved, at \<open>a:1.0\<close>;
  then session \<open>a\<close> is cleared.
\<close>

definition moved_pane :: PaneIdResolver where
  "moved_pane =
     snd (registerPane (snd (registerPane new_resolver 0 ''%1'' ''a'' 0 0)) 1 ''%1'' ''a'' 1 0)"

section \<open>CommandEscaper.escapeForTmuxSendKeys (class CommandEscaper of src/utils/errors.ts)\<close>

text \<open>
  \<open>s.replace(/c/g, rep)\<close> for a pattern of one character: every occurrence of \<open>c\<close>, left
  to right, becomes \<open>rep\<close>. None of the eight replacement texts holds a \<open>$\<close> followed by
  a character, so each stands for itself.
\<close>

fun replace_all :: "char \<Rightarrow> string \<Rightarrow> string \<Rightarrow> string" where
  "replace_all c rep [] = []"
| "replace_all c rep (x # xs) =
     (if x = c then rep @ replace_all c rep xs else x # replace_all c rep xs)"

definition escapeForTmuxSendKeys :: "string \<Rightarrow> string" where
  "escapeForTmuxSendKeys command =
     replace_all CHR ''&'' [CHR 0x5C, CHR ''&'']
      (replace_all CHR ''|'' [CHR 0x5C, CHR ''|'']
        (replace_all CHR '';'' [CHR 0x5C, CHR '';'']
          (replace_all CHR 0x60 [CHR 0x5C, CHR 0x60]
            (replace_all CHR ''$'' [CHR 0x5C, CHR ''$'']
              (replace_all CHR 0x27 [CHR 0x27, CHR 0x22, CHR 0x27, CHR 0x22, CHR 0x27]
                (replace_all CHR 0x22 [CHR 0x5C, CHR 0x22]
                  (replace_all CHR 0x5C [CHR 0x5C, CHR 0x5C] command)))))))"

text \<open>
  The specification's reading of the escaper: eight replacements, one per character
  class, composed in the order in which the specification lists them
  (\<open>escape_in_order\<close>); and the table that says what each character of the input
  becomes (\<open>escape_char\<close>).
\<close>

definition escape_backslash :: "string \<Rightarrow> string" where
  "escape_backslash = replace_all CHR 0x5C [CHR 0x5C, CHR 0x5C]"

definition escape_double_quote :: "string \<Rightarrow> string" where
  "escape_double_quote = replace_all CHR 0x22 [CHR 0x5C, CHR 0x22]"

definition escape_single_quote :: "string \<Rightarrow> string" where
  "escape_single_quote = replace_all CHR 0x27 [CHR 0x27, CHR 0x22, CHR 0x27, CHR 0x22, CHR 0x27]"

definition escape_dollar :: "string \<Rightarrow> string" where
  "escape_dollar = replace_all CHR ''$'' [CHR 0x5C, CHR ''$'']"

definition escape_backtick :: "string \<Rightarrow> string" where
  "escape_backtick = replace_all CHR 0x60 [CHR 0x5C, CHR 0x60]"

definition escape_semicolon :: "string \<Rightarrow> string" where
  "escape_semicolon = replace_all CHR '';'' [CHR 0x5C, CHR '';'']"

definition escape_pipe :: "string \<Rightarrow> string" where
  "escape_pipe = replace_all CHR ''|'' [CHR 0x5C, CHR ''|'']"

definition escape_ampersand :: "string \<Rightarrow> string" where
  "escape_ampersand = replace_all CHR ''&'' [CHR 0x5C, CHR ''&'']"

definition escape_in_order :: "string \<Rightarrow> string" where
  "escape_in_order =
     escape_ampersand \<circ> escape_pipe \<circ> escape_semicolon \<circ> escape_backtick \<circ>
     escape_dollar \<circ> escape_single_quote \<circ> escape_double_quote \<circ> escape_backslash"

definition escape_char :: "char \<Rightarrow> string" where
  "escape_char c =
     (if c = CHR 0x5C then [CHR 0x5C, CHR 0x5C]
      else if c = CHR 0x22 then [CHR 0x5C, CHR 0x22]
      else if c = CHR 0x27 then [CHR 0x27, CHR 0x22, CHR 0x27, CHR 0x22, CHR 0x27]
      else if c = CHR ''$'' then [CHR 0x5C, CHR ''$'']
      else if c = CHR 0x60 then [CHR 0x5C, CHR 0x60]
      else if c = CHR '';'' then [CHR 0x5C, CHR '';'']
      else if c = CHR ''|'' then [CHR 0x5C, CHR ''|'']
      else if c = CHR ''&'' then [CHR 0x5C, CHR ''&'']
      else [c])"

section \<open>FileWatcher (class FileWatcher of src/utils/errors.ts)\<close>

text \<open>
  A file is the list of its bytes; \<open>None\<close> is a file that \<open>stat\<close> or \<open>open\<close> cannot reach
  (the call throws). The text handed to the callback is the UTF-8 decoding of the bytes
  read, \<open>buffer.toString('utf8')\<close>; the model keeps the bytes, which determine it.

  \<open>newContent.trim()\<close> is empty exactly when every character of the text is white space
  or a line terminator. On the bytes: a run of the UTF-8 forms of U+0009 to U+000D,
  U+0020, U+00A0, U+1680, U+2000 to U+200A, U+2028, U+2029, U+202F, U+205F, U+3000 and
  U+FEFF. A byte sequence that is not well formed decodes to U+FFFD, which is not white
  space.
\<close>

definition ws_byte :: "char \<Rightarrow> bool" where
  "ws_byte c = (of_char c \<in> {9, 10, 11, 12, 13, 32 :: nat})"

definition ws_three :: "char \<Rightarrow> char \<Rightarrow> char \<Rightarrow> bool" where
  "ws_three c d e =
     ((c = CHR 0xE1 \<and> d = CHR 0x9A \<and> e = CHR 0x80) \<or>
      (c = CHR 0xE2 \<and> d = CHR 0x80 \<and>
         ((128 \<le> (of_char e :: nat) \<and> (of_char e :: nat) \<le> 138) \<or>
          e = CHR 0xA8 \<or> e = CHR 0xA9 \<or> e = CHR 0xAF)) \<or>
      (c = CHR 0xE2 \<and> d = CHR 0x81 \<and> e = CHR 0x9F) \<or>
      (c = CHR 0xE3 \<and> d = CHR 0x80 \<and> e = CHR 0x80) \<or>
      (c = CHR 0xEF \<and> d = CHR 0xBB \<and> e = CHR 0xBF))"

fun utf8_blank :: "string \<Rightarrow> bool" where
  "utf8_blank [] = True"
| "utf8_blank (c # cs) =
     (if ws_byte c then utf8_blank cs
      else if c = CHR 0xC2 then
        (case cs of d # ds \<Rightarrow> d = CHR 0xA0 \<and> utf8_blank ds | [] \<Rightarrow> False)
      else
        (case cs of d # e # es \<Rightarrow> ws_three c d e \<and> utf8_blank es | _ \<Rightarrow> False))"

text \<open>
  A callback is a function of the program's caller. What the tailer observes of it is
  whether a call returns (\<open>True\<close>) or throws (\<open>False\<close>). The effects of a step are listed in
  order: \<open>Read p bs\<close> is \<open>fileHandle.read\<close> at position \<open>p\<close> into a buffer of \<open>length bs\<close>
  bytes, which holds \<open>bs\<close> when the read has settled; \<open>Call t\<close> is \<open>callback(t)\<close>.
\<close>

type_synonym callback = "string \<Rightarrow> bool"

datatype effect = Read nat string | Call string

record FileWatcher =
  watchers :: "string list"
  filePositions :: "(string \<times> nat) list"
  callbacks :: "(string \<times> callback) list"

definition new_watcher :: FileWatcher where
  "new_watcher = \<lparr>watchers = [], filePositions = [], callbacks = []\<rparr>"

datatype watch_error = StatFailed

definition watchFile ::
  "FileWatcher \<Rightarrow> nat \<Rightarrow> string \<Rightarrow> callback \<Rightarrow> string option \<Rightarrow> watch_error + FileWatcher" where
  "watchFile fw maxFileSize filePath callback file =
     (case file of
        None \<Rightarrow> Inl StatFailed
      | Some content \<Rightarrow>
          Inr \<lparr>watchers = (if filePath \<in> set (watchers fw) then watchers fw
                           else watchers fw @ [filePath]),
               filePositions =
                 js_set filePath (if length content > maxFileSize then length content else 0)
                   (filePositions fw),
               callbacks = js_set filePath callback (callbacks fw)\<rparr>)"

text \<open>\<open>this.filePositions.get(filePath) || 0\<close>.\<close>

definition currentPosition :: "FileWatcher \<Rightarrow> string \<Rightarrow> nat" where
  "currentPosition fw filePath =
     (case js_get (filePositions fw) filePath of None \<Rightarrow> 0 | Some p \<Rightarrow> p)"

definition handleFileChange ::
  "FileWatcher \<Rightarrow> string \<Rightarrow> string option \<Rightarrow> FileWatcher \<times> effect list" where
  "handleFileChange fw filePath file =
     (case js_get (callbacks fw) filePath of
        None \<Rightarrow> (fw, [])
      | Some callback \<Rightarrow>
          (case file of
             None \<Rightarrow> (fw, [])
           | Some content \<Rightarrow>
               (let pos = currentPosition fw filePath; size = length content in
                if size < pos
                then (fw\<lparr>filePositions := js_set filePath 0 (filePositions fw)\<rparr>, [])
                else if size = pos then (fw, [])
                else
                  (let newContent = take (size - pos) (drop pos content);
                       advanced = fw\<lparr>filePositions := js_set filePath size (filePositions fw)\<rparr>
                   in if utf8_blank newContent then (advanced, [Read pos newContent])
                      else if callback newContent
                      then (advanced, [Read pos newContent, Call newContent])
                      else (fw, [Read pos newContent, Call newContent])))))"

definition stopWatching :: "FileWatcher \<Rightarrow> string \<Rightarrow> FileWatcher" where
  "stopWatching fw filePath =
     (if filePath \<in> set (watchers fw)
      then \<lparr>watchers = removeAll filePath (watchers fw),
            filePositions = js_delete filePath (filePositions fw),
            callbacks = js_delete filePath (callbacks fw)\<rparr>
      else fw)"

definition stopAll :: "FileWatcher \<Rightarrow> FileWatcher" where
  "stopAll fw = foldl stopWatching fw (watchers fw)"

text \<open>
  \<open>handleFileChange\<close> above is the handler run from its first statement to its last on a
  file that stays as it is meanwhile. The source runs it as an \<open>async\<close> function, started
  by the listener \<open>watcher.on('change', async () => { await this.handleFileChange(filePath) })\<close>,
  which nobody awaits: the handler runs up to \<open>await stat(filePath)\<close> when the notification
  arrives and goes on when that promise settles, and again at \<open>open\<close>, \<open>read\<close> and
  \<open>close\<close>. Between two of its parts other handlers may run. A \<open>handler\<close> is a handler
  that waits, with what it has captured so far: \<open>callback\<close>, \<open>currentPosition\<close> and
  \<open>stats.size\<close>.
\<close>

datatype handler =
    AwaitStat callback nat
  | AwaitOpen callback nat nat
  | AwaitRead callback nat nat
  | AwaitClose

text \<open>The part that runs when the notification arrives, up to \<open>await stat(filePath)\<close>.\<close>

definition start_handler :: "FileWatcher \<Rightarrow> string \<Rightarrow> handler option" where
  "start_handler fw filePath =
     (case js_get (callbacks fw) filePath of
        None \<Rightarrow> None
      | Some callback \<Rightarrow> Some (AwaitStat callback (currentPosition fw filePath)))"

text \<open>
  The part that runs when the awaited promise has settled: \<open>file\<close> is the file as the call
  has found it, \<open>None\<close> when the promise is rejected. The watcher \<open>fw\<close> is the state at that
  moment, not the one the handler started in. The buffer is \<open>Buffer.alloc(stats.size -
  currentPosition)\<close>, filled with zeros; a file that has become shorter since \<open>stat\<close> leaves
  the zeros at its end. A rejected \<open>read\<close> goes through \<open>finally\<close>, which awaits \<open>close\<close>.
\<close>

fun resume ::
  "FileWatcher \<Rightarrow> string \<Rightarrow> handler \<Rightarrow> string option \<Rightarrow>
     (FileWatcher \<times> handler option) \<times> effect list" where
  "resume fw filePath (AwaitStat callback pos) file =
     (case file of
        None \<Rightarrow> ((fw, None), [])
      | Some content \<Rightarrow>
          (let stats_size = length content in
           if stats_size < pos
           then ((fw\<lparr>filePositions := js_set filePath 0 (filePositions fw)\<rparr>, None), [])
           else if stats_size = pos then ((fw, None), [])
           else ((fw, Some (AwaitOpen callback pos stats_size)), [])))"
| "resume fw filePath (AwaitOpen callback pos stats_size) file =
     (case file of
        None \<Rightarrow> ((fw, None), [])
      | Some content \<Rightarrow> ((fw, Some (AwaitRead callback pos stats_size)), []))"
| "resume fw filePath (AwaitRead callback pos stats_size) file =
     (case file of
        None \<Rightarrow> ((fw, Some AwaitClose), [])
      | Some content \<Rightarrow>
          (let newContent =
                 take (stats_size - pos) (drop pos content @ replicate (stats_size - pos) (CHR 0x00));
               advanced = fw\<lparr>filePositions := js_set filePath stats_size (filePositions fw)\<rparr>
           in if utf8_blank newContent then ((advanced, Some AwaitClose), [Read pos newContent])
              else if callback newContent
              then ((advanced, Some AwaitClose), [Read pos newContent, Call newContent])
              else ((fw, Some AwaitClose), [Read pos newContent, Call newContent])))"
| "resume fw filePath AwaitClose file = ((fw, None), [])"

text \<open>
  What happens to the tailer of one file: \<open>Change\<close> is a change notification, which starts
  a handler; \<open>Settled i file\<close> is the promise settling that handler \<open>i\<close> of the waiting ones
  awaits. The waiting handlers are kept in the order they started in; any of them may be
  the next to go on.
\<close>

datatype signal = Change | Settled nat "string option"

fun step ::
  "FileWatcher \<Rightarrow> string \<Rightarrow> handler list \<Rightarrow> signal \<Rightarrow>
     (FileWatcher \<times> handler list) \<times> effect list" where
  "step fw filePath pending Change =
     (case start_handler fw filePath of
        None \<Rightarrow> ((fw, pending), [])
      | Some h \<Rightarrow> ((fw, pending @ [h]), []))"
| "step fw filePath pending (Settled i file) =
     (if i < length pending
      then (case resume fw filePath (pending ! i) file of
              ((fw', None), es) \<Rightarrow> ((fw', take i pending @ drop (Suc i) pending), es)
            | ((fw', Some h), es) \<Rightarrow> ((fw', pending[i := h]), es))
      else ((fw, pending), []))"

text \<open>A run of signals; the effects of the steps are concatenated.\<close>

fun notifications ::
  "FileWatcher \<Rightarrow> string \<Rightarrow> handler list \<Rightarrow> signal list \<Rightarrow>
     (FileWatcher \<times> handler list) \<times> effect list" where
  "notifications fw filePath pending [] = ((fw, pending), [])"
| "notifications fw filePath pending (e # signals) =
     (case step fw filePath pending e of
        ((fw', pending'), es) \<Rightarrow>
          (case notifications fw' filePath pending' signals of (s, es') \<Rightarrow> (s, es @ es')))"

text \<open>
  A run in which the handlers do not overlap: every change notification arrives when no
  handler is waiting.
\<close>

fun one_at_a_time :: "FileWatcher \<Rightarrow> string \<Rightarrow> handler list \<Rightarrow> signal list \<Rightarrow> bool" where
  "one_at_a_time fw filePath pending [] = True"
| "one_at_a_time fw filePath pending (e # signals) =
     ((e = Change \<longrightarrow> pending = []) \<and>
      (case step fw filePath pending e of
         ((fw', pending'), es) \<Rightarrow> one_at_a_time fw' filePath pending' signals))"

text \<open>The files that the settled calls of a run have found, in order.\<close>

fun observed :: "signal list \<Rightarrow> string list" where
  "observed [] = []"
| "observed (Change # signals) = observed signals"
| "observed (Settled i None # signals) = observed signals"
| "observed (Settled i (Some content) # signals) = content # observed signals"

text \<open>
  One notification whose handler runs to its end: \<open>stat\<close>, \<open>open\<close>, \<open>read\<close> and \<open>close\<close> find
  the files \<open>a\<close>, \<open>b\<close>, \<open>c\<close> and \<open>d\<close>.
\<close>

definition handled :: "string \<Rightarrow> string \<Rightarrow> string \<Rightarrow> string \<Rightarrow> signal list" where
  "handled a b c d =
     [Change, Settled 0 (Some a), Settled 0 (Some b), Settled 0 (Some c), Settled 0 (Some d)]"

text \<open>The chunks read, their bytes, and the texts delivered, in order.\<close>

fun chunks :: "effect list \<Rightarrow> string list" where
  "chunks [] = []"
| "chunks (Read p bs # es) = bs # chunks es"
| "chunks (Call t # es) = chunks es"

definition bytes_read :: "effect list \<Rightarrow> string" where
  "bytes_read es = concat (chunks es)"

fun delivered :: "effect list \<Rightarrow> string list" where
  "delivered [] = []"
| "delivered (Read p bs # es) = delivered es"
| "delivered (Call t # es) = t # delivered es"

text \<open>A file that grows by appending: each observation extends the one before.\<close>

fun grows :: "string \<Rightarrow> string list \<Rightarrow> bool" where
  "grows c [] = True"
| "grows c (d # ds) = (take (length c) d = c \<and> grows d ds)"

text \<open>
  A watcher of the log \<open>/l\<close> with the recorded offset \<open>n\<close>; with \<open>n = 0\<close> it is what
  \<open>watchFile\<close> leaves on an empty file. The callback \<open>returning\<close> always returns, the
  callback \<open>throwing\<close> always throws.
\<close>

definition returning :: callback where
  "returning = (\<lambda>t. True)"

definition throwing :: callback where
  "throwing = (\<lambda>t. False)"

definition watching_at :: "callback \<Rightarrow> nat \<Rightarrow> FileWatcher" where
  "watching_at callback n =
     \<lparr>watchers = [''/l''], filePositions = [(''/l'', n)], callbacks = [(''/l'', callback)]\<rparr>"

section \<open>McpIntegrator (class McpIntegrator of src/core/mcp-integrator.ts)\<close>

text \<open>
  A trigger function reads the clock three times: \<open>Date.now()\<close> for the debounce test
  (\<open>checked\<close>), \<open>new Date()\<close> for the entry of \<open>lastTriggers\<close> (\<open>stored\<close>) and \<open>new Date()\<close>
  for the payload (\<open>stamped\<close>). \<open>emit\<close> is modelled by the list of the events emitted;
  listeners are run by the caller of the model, after the call.
\<close>

record clock =
  checked :: int
  stored :: int
  stamped :: int

datatype lookup_type = LookupError | FrameworkSetup | BestPractices

fun lookup_type_text :: "lookup_type \<Rightarrow> string" where
  "lookup_type_text LookupError = ''error''"
| "lookup_type_text FrameworkSetup = ''framework_setup''"
| "lookup_type_text BestPractices = ''best_practices''"

datatype 'p event =
    trigger_sequential string 'p int
  | trigger_context7 string string lookup_type int
  | trigger_rika int "string option" string string int

record McpIntegrator =
  lastTriggers :: "(string \<times> int) list"
  activeAnalyses :: "string list"

definition new_integrator :: McpIntegrator where
  "new_integrator = \<lparr>lastTriggers = [], activeAnalyses = []\<rparr>"

text \<open>\<open>lastTrigger && Date.now() - lastTrigger.getTime() < debounceMs\<close>.\<close>

definition debounced :: "McpIntegrator \<Rightarrow> string \<Rightarrow> int \<Rightarrow> int \<Rightarrow> bool" where
  "debounced st key now debounceMs =
     (case js_get (lastTriggers st) key of
        None \<Rightarrow> False
      | Some lastTrigger \<Rightarrow> now - lastTrigger < debounceMs)"

definition sequential_key :: "string \<Rightarrow> string" where
  "sequential_key paneId = ''sequential_'' @ paneId"

definition triggerSequentialAnalysis ::
  "McpIntegrator \<Rightarrow> clock \<Rightarrow> string \<Rightarrow> 'p \<Rightarrow> McpIntegrator \<times> 'p event list" where
  "triggerSequentialAnalysis st clk paneId params =
     (let key = sequential_key paneId in
      if key \<in> set (activeAnalyses st) then (st, [])
      else if debounced st key (checked clk) (5 * 60 * 1000) then (st, [])
      else
        (let active = activeAnalyses st @ [key];
             triggers = js_set key (stored clk) (lastTriggers st)
         in (\<lparr>lastTriggers = triggers, activeAnalyses = removeAll key active\<rparr>,
             [trigger_sequential paneId params (stamped clk)])))"

definition context7_key :: "string \<Rightarrow> lookup_type \<Rightarrow> string" where
  "context7_key library type = ''context7_'' @ library @ ''_'' @ lookup_type_text type"

definition triggerDocumentationLookup ::
  "McpIntegrator \<Rightarrow> clock \<Rightarrow> string \<Rightarrow> string \<Rightarrow> lookup_type
     \<Rightarrow> McpIntegrator \<times> 'p event list" where
  "triggerDocumentationLookup st clk library query type =
     (let key = context7_key library type in
      if debounced st key (checked clk) (10 * 60 * 1000) then (st, [])
      else (st\<lparr>lastTriggers := js_set key (stored clk) (lastTriggers st)\<rparr>,
            [trigger_context7 library query type (stamped clk)]))"

definition rika_key :: "int \<Rightarrow> string" where
  "rika_key port = ''rika_'' @ show_int port"

definition triggerRikaTest ::
  "McpIntegrator \<Rightarrow> clock \<Rightarrow> int \<Rightarrow> string option \<Rightarrow> McpIntegrator \<times> 'p event list" where
  "triggerRikaTest st clk port paneId =
     (let key = rika_key port in
      if debounced st key (checked clk) (2 * 60 * 1000) then (st, [])
      else (st\<lparr>lastTriggers := js_set key (stored clk) (lastTriggers st)\<rparr>,
            [trigger_rika port paneId (''http://localhost:'' @ show_int port)
               ''accessibility_audit'' (stamped clk)]))"

definition clearHistory :: "McpIntegrator \<Rightarrow> McpIntegrator" where
  "clearHistory st = \<lparr>lastTriggers = [], activeAnalyses = []\<rparr>"

text \<open>
  A qualifying event is a call of one of the trigger functions. Its key is the key of
  \<open>lastTriggers\<close> that the function uses, and its window the \<open>debounceMs\<close> of the function.
\<close>

datatype 'p request =
    Sequential string 'p
  | Documentation string string lookup_type
  | Rika int "string option"



fun trigger :: "McpIntegrator \<Rightarrow> clock \<Rightarrow> 'p request \<Rightarrow> McpIntegrator \<times> 'p event list" where
  "trigger st clk (Sequential paneId params) = triggerSequentialAnalysis st clk paneId params"
| "trigger st clk (Documentation library query type) =
     triggerDocumentationLookup st clk library query type"
| "trigger st clk (Rika port paneId) = triggerRikaTest st clk port paneId"




text \<open>
  A call that reads the same instant \<open>t\<close> three times, and the integrator after the first
  trigger for pane \<open>%3\<close>, fired at instant 0.
\<close>

definition at_instant :: "int \<Rightarrow> clock" where
  "at_instant t = \<lparr>checked = t, stored = t, stamped = t\<rparr>"

definition fired_once :: McpIntegrator where
  "fired_once = \<lparr>lastTriggers = [(''sequential_%3'', 0)], activeAnalyses = []\<rparr>"

section \<open>Shared types (src/types/index.ts)\<close>

text \<open>
  Field names carry a prefix where two interfaces of the source share a name. An optional
  field is an \<open>option\<close>; \<open>None\<close> is \<open>undefined\<close>. \<open>NaN\<close>, which \<open>parseInt\<close> gives for a text
  with no leading digit, is \<open>Some None\<close> in a numeric field.
\<close>

datatype entry_type = Error | Warning | Info

record ErrorEntry =
  entry_id :: string
  entry_paneId :: string
  entry_file :: "string option"
  entry_line :: "int option option"
  entry_column :: "int option option"
  entry_message :: string
  entry_type :: entry_type
  entry_language :: "string option"
  entry_timestamp :: int

record TmuxPane =
  pane_id :: string
  pane_nativeId :: "string option"
  pane_windowId :: string
  pane_sessionName :: string
  pane_index :: int
  pane_title :: string
  pane_command :: string
  pane_pid :: int
  pane_logFile :: "string option"
  pane_active :: bool

section \<open>Regular expressions as the program uses them\<close>

text \<open>
  The patterns of the program are written with literal characters, \<open>.\<close>, \<open>\d\<close>, \<open>\s\<close>,
  a negated class of one character, sequence, alternation, \<open>*\<close> and \<open>+\<close> (greedy or
  lazy), capture groups, \<open>^\<close> and \<open>$\<close>, under the flags \<open>i\<close> and \<open>s\<close>. The matcher
  follows the backtracking order of ECMAScript: it lists the ways a pattern can match at
  a position, the one the engine tries first at the head, and \<open>match\<close> takes the first
  way at the leftmost position that has one.
\<close>

datatype regex =
    Chr char
  | Dot
  | Digit
  | Space
  | NotChr char
  | Empty
  | Bol
  | Eol
  | Seq regex regex
  | Alt regex regex
  | Star bool regex
  | Group nat regex

record flags =
  ignoreCase :: bool
  dotAll :: bool

definition no_flags :: flags where
  "no_flags = \<lparr>ignoreCase = False, dotAll = False\<rparr>"

definition flag_i :: flags where
  "flag_i = \<lparr>ignoreCase = True, dotAll = False\<rparr>"

definition flag_s :: flags where
  "flag_s = \<lparr>ignoreCase = False, dotAll = True\<rparr>"

text \<open>Pattern syntax: a sequence, a literal text, \<open>r+\<close> and \<open>r+?\<close>, an alternation.\<close>

fun seq :: "regex list \<Rightarrow> regex" where
  "seq [] = Empty"
| "seq [r] = r"
| "seq (r # rs) = Seq r (seq rs)"

definition lit :: "string \<Rightarrow> regex" where
  "lit s = seq (map Chr s)"

definition one_or_more :: "bool \<Rightarrow> regex \<Rightarrow> regex" where
  "one_or_more greedy r = Seq r (Star greedy r)"

fun alts :: "regex list \<Rightarrow> regex" where
  "alts [] = Empty"
| "alts [r] = r"
| "alts (r # rs) = Alt r (alts rs)"

text \<open>
  \<open>Canonicalize\<close> under the flag \<open>i\<close>: the upper case of the code unit. On code units
  below 256, \<open>a\<close> to \<open>z\<close> and U+00E0 to U+00FE (but U+00F7) move down by 32; the upper
  case of U+00B5 and of U+00FF lies above 255 and that of U+00DF is two characters, so each
  of the three stays apart from every other code unit below 256.
\<close>

definition canonical :: "nat \<Rightarrow> nat" where
  "canonical n =
     (if (97 \<le> n \<and> n \<le> 122) \<or> (224 \<le> n \<and> n \<le> 254 \<and> n \<noteq> 247) then n - 32 else n)"

definition same_char :: "flags \<Rightarrow> char \<Rightarrow> char \<Rightarrow> bool" where
  "same_char fl c d =
     (if ignoreCase fl then canonical (of_char c) = canonical (of_char d) else c = d)"

definition line_terminator :: "char \<Rightarrow> bool" where
  "line_terminator c = (of_char c \<in> {10, 13 :: nat})"

text \<open>
  A matcher state: the position in the input, the input from there on, and the captures
  made so far (group number and captured text, the latest first).
\<close>

record mstate =
  m_pos :: nat
  m_rest :: string
  m_caps :: "(nat \<times> string) list"

definition step_char :: "(char \<Rightarrow> bool) \<Rightarrow> mstate \<Rightarrow> mstate list" where
  "step_char ok st =
     (case m_rest st of
        [] \<Rightarrow> []
      | c # cs \<Rightarrow> if ok c then [st\<lparr>m_pos := Suc (m_pos st), m_rest := cs\<rparr>] else [])"

text \<open>
  \<open>r*\<close> from a state: each further round of \<open>r\<close> must consume a character; the greedy
  form tries one more round before it stops, the lazy form stops before it tries. The
  fuel is the length of the remaining input, which bounds the rounds.
\<close>

primrec star_iter :: "bool \<Rightarrow> (mstate \<Rightarrow> mstate list) \<Rightarrow> nat \<Rightarrow> mstate \<Rightarrow> mstate list" where
  "star_iter greedy f 0 st = [st]"
| "star_iter greedy f (Suc n) st =
     (let more = concat (map (star_iter greedy f n)
                   (filter (\<lambda>st'. m_pos st < m_pos st') (f st)))
      in if greedy then more @ [st] else st # more)"

primrec groups_of :: "regex \<Rightarrow> nat list" where
  "groups_of (Chr c) = []"
| "groups_of Dot = []"
| "groups_of Digit = []"
| "groups_of Space = []"
| "groups_of (NotChr c) = []"
| "groups_of Empty = []"
| "groups_of Bol = []"
| "groups_of Eol = []"
| "groups_of (Seq r1 r2) = groups_of r1 @ groups_of r2"
| "groups_of (Alt r1 r2) = groups_of r1 @ groups_of r2"
| "groups_of (Star greedy r) = groups_of r"
| "groups_of (Group k r) = k # groups_of r"

text \<open>Each round of a quantified pattern starts with the captures of its groups cleared.\<close>

definition clear_groups :: "nat list \<Rightarrow> mstate \<Rightarrow> mstate" where
  "clear_groups ks st =
     (if ks = [] then st else st\<lparr>m_caps := filter (\<lambda>kv. fst kv \<notin> set ks) (m_caps st)\<rparr>)"

primrec matches :: "flags \<Rightarrow> regex \<Rightarrow> mstate \<Rightarrow> mstate list" where
  "matches fl (Chr c) st = step_char (same_char fl c) st"
| "matches fl Dot st = step_char (\<lambda>d. dotAll fl \<or> \<not> line_terminator d) st"
| "matches fl Digit st = step_char is_digit st"
| "matches fl Space st = step_char js_space st"
| "matches fl (NotChr c) st = step_char (\<lambda>d. \<not> same_char fl c d) st"
| "matches fl Empty st = [st]"
| "matches fl Bol st = (if m_pos st = 0 then [st] else [])"
| "matches fl Eol st = (if m_rest st = [] then [st] else [])"
| "matches fl (Seq r1 r2) st = concat (map (matches fl r2) (matches fl r1 st))"
| "matches fl (Alt r1 r2) st = matches fl r1 st @ matches fl r2 st"
| "matches fl (Star greedy r) st =
     star_iter greedy (\<lambda>st'. matches fl r (clear_groups (groups_of r) st'))
       (length (m_rest st)) st"
| "matches fl (Group k r) st =
     map (\<lambda>st'. st'\<lparr>m_caps := (k, take (m_pos st' - m_pos st) (m_rest st)) # m_caps st'\<rparr>)
       (matches fl r st)"

text \<open>
  \<open>s.match(re)\<close> for a pattern without the flag \<open>g\<close>: the first way to match at the
  leftmost position. The result lists the captures; group 0 is the text matched. A group
  that took no part has no entry (\<open>undefined\<close>).
\<close>

fun search_from :: "flags \<Rightarrow> regex \<Rightarrow> nat \<Rightarrow> string \<Rightarrow> (nat \<times> string) list option" where
  "search_from fl r p [] =
     (case matches fl r \<lparr>m_pos = p, m_rest = [], m_caps = []\<rparr> of
        [] \<Rightarrow> None
      | st # _ \<Rightarrow> Some ((0, []) # m_caps st))"
| "search_from fl r p (c # cs) =
     (case matches fl r \<lparr>m_pos = p, m_rest = c # cs, m_caps = []\<rparr> of
        [] \<Rightarrow> search_from fl r (Suc p) cs
      | st # _ \<Rightarrow> Some ((0, take (m_pos st - p) (c # cs)) # m_caps st))"

definition js_match :: "flags \<Rightarrow> regex \<Rightarrow> string \<Rightarrow> (nat \<times> string) list option" where
  "js_match fl r s = search_from fl r 0 s"

definition js_test :: "flags \<Rightarrow> regex \<Rightarrow> string \<Rightarrow> bool" where
  "js_test fl r s = (js_match fl r s \<noteq> None)"

text \<open>\<open>match[k]\<close>.\<close>

definition match_group :: "(nat \<times> string) list \<Rightarrow> nat \<Rightarrow> string option" where
  "match_group m k = map_of m k"

text \<open>
  The text \<open>s\<close> starts with the word \<open>w\<close>, character by character, as a literal of a
  pattern with the flags \<open>fl\<close> reads it.
\<close>

fun starts_ci :: "flags \<Rightarrow> string \<Rightarrow> string \<Rightarrow> bool" where
  "starts_ci fl [] s = True"
| "starts_ci fl (c # w) [] = False"
| "starts_ci fl (c # w) (d # s) = (same_char fl c d \<and> starts_ci fl w s)"

section \<open>LogAnalyzer (class LogAnalyzer, src/core/log-analyzer.ts)\<close>

text \<open>
  \<open>parseInt(s)\<close> with no radix: as \<open>parseInt(s, 10)\<close>, but a text that starts with \<open>0x\<close> or
  \<open>0X\<close> after its sign is read as hexadecimal. \<open>parseInt(undefined)\<close> is \<open>NaN\<close>.
\<close>

definition hex_val :: "char \<Rightarrow> int option" where
  "hex_val c =
     (let n = (of_char c :: nat) in
      if 48 \<le> n \<and> n \<le> 57 then Some (int n - 48)
      else if 65 \<le> n \<and> n \<le> 70 then Some (int n - 55)
      else if 97 \<le> n \<and> n \<le> 102 then Some (int n - 87)
      else None)"

definition parse_hex :: "string \<Rightarrow> int option" where
  "parse_hex s =
     (let ds = takeWhile (\<lambda>c. hex_val c \<noteq> None) s
      in if ds = [] then None
         else Some (foldl (\<lambda>n c. 16 * n + (case hex_val c of None \<Rightarrow> 0 | Some v \<Rightarrow> v)) 0 ds))"

definition parse_unsigned :: "string \<Rightarrow> int option" where
  "parse_unsigned s =
     (if startsWith s ''0x'' \<or> startsWith s ''0X'' then parse_hex (drop 2 s)
      else parse_digits s)"

definition parseInt_auto :: "string option \<Rightarrow> int option" where
  "parseInt_auto v =
     (case v of
        None \<Rightarrow> None
      | Some s \<Rightarrow>
          (case dropWhile js_space s of
             [] \<Rightarrow> None
           | c # cs \<Rightarrow>
               if c = CHR ''-'' then map_option uminus (parse_unsigned cs)
               else if c = CHR ''+'' then parse_unsigned cs
               else parse_unsigned (c # cs)))"

text \<open>
  An \<open>ErrorPattern\<close> (src/types/index.ts): the \<open>RegExp\<close> is its pattern and its flags;
  \<open>captureGroups\<close> gives a group number to \<open>message\<close> and, optionally, to \<open>file\<close>, \<open>line\<close>
  and \<open>column\<close>.
\<close>

record ErrorPattern =
  pattern_name :: string
  pattern_flags :: flags
  pattern_regex :: regex
  pattern_type :: entry_type
  pattern_language :: "string option"
  file_group :: "nat option"
  line_group :: "nat option"
  column_group :: "nat option"
  message_group :: nat

definition typescript_pattern :: ErrorPattern where
  "typescript_pattern =
     \<lparr>pattern_name = ''typescript'', pattern_flags = flag_i,
      pattern_regex =
        seq [Bol, Group 1 (one_or_more False Dot), Chr CHR ''('', Group 2 (one_or_more True Digit),
             Chr CHR '','', Group 3 (one_or_more True Digit), Chr CHR '')'', Chr CHR '':'',
             Star True Space, Group 4 (alts [lit ''error'', lit ''warning'']), Star True Space,
             lit ''TS'', one_or_more True Digit, Chr CHR '':'', Star True Space,
             Group 5 (one_or_more True Dot), Eol],
      pattern_type = Error, pattern_language = Some ''typescript'',
      file_group = Some 1, line_group = Some 2, column_group = Some 3, message_group = 5\<rparr>"

definition javascript_pattern :: ErrorPattern where
  "javascript_pattern =
     \<lparr>pattern_name = ''javascript'', pattern_flags = flag_i,
      pattern_regex =
        seq [Bol, Group 1 (one_or_more False Dot), Chr CHR '':'', Group 2 (one_or_more True Digit),
             Chr CHR '':'', Group 3 (one_or_more True Digit), Chr CHR '':'', Star True Space,
             Group 4 (alts [lit ''Error'', lit ''SyntaxError'', lit ''TypeError'',
                            lit ''ReferenceError'']),
             Chr CHR '':'', Star True Space, Group 5 (one_or_more True Dot), Eol],
      pattern_type = Error, pattern_language = Some ''javascript'',
      file_group = Some 1, line_group = Some 2, column_group = Some 3, message_group = 5\<rparr>"

definition python_pattern :: ErrorPattern where
  "python_pattern =
     \<lparr>pattern_name = ''python'', pattern_flags = flag_s,
      pattern_regex =
        seq [lit (''File '' @ [CHR 0x22]), Group 1 (one_or_more False Dot),
             lit ([CHR 0x22] @ '', line ''), Group 2 (one_or_more True Digit), Star False Dot,
             Chr CHR 0x0A, Group 3 (Seq (one_or_more False Dot) (lit ''Error'')), lit '': '',
             Group 4 (one_or_more True Dot)],
      pattern_type = Error, pattern_language = Some ''python'',
      file_group = Some 1, line_group = Some 2, column_group = None, message_group = 4\<rparr>"

definition rust_pattern :: ErrorPattern where
  "rust_pattern =
     \<lparr>pattern_name = ''rust'', pattern_flags = flag_s,
      pattern_regex =
        seq [Bol, lit ''error'', Star False Dot, Chr CHR '':'', Star True Space,
             Group 1 (one_or_more True Dot), Chr CHR 0x0A, Star False Dot, lit ''--> '',
             Group 2 (one_or_more False Dot), Chr CHR '':'', Group 3 (one_or_more True Digit), Chr CHR '':'',
             Group 4 (one_or_more True Digit)],
      pattern_type = Error, pattern_language = Some ''rust'',
      file_group = Some 2, line_group = Some 3, column_group = Some 4, message_group = 1\<rparr>"

definition go_pattern :: ErrorPattern where
  "go_pattern =
     \<lparr>pattern_name = ''go'', pattern_flags = no_flags,
      pattern_regex =
        seq [Bol, Group 1 (one_or_more False Dot), Chr CHR '':'', Group 2 (one_or_more True Digit),
             Chr CHR '':'', Group 3 (one_or_more True Digit), Chr CHR '':'', Star True Space,
             Group 4 (one_or_more True Dot), Eol],
      pattern_type = Error, pattern_language = Some ''go'',
      file_group = Some 1, line_group = Some 2, column_group = Some 3, message_group = 4\<rparr>"

definition general_error_pattern :: ErrorPattern where
  "general_error_pattern =
     \<lparr>pattern_name = ''general_error'', pattern_flags = flag_i,
      pattern_regex =
        Group 1 (alts [lit ''ERROR'', lit ''FAIL'', lit ''Exception'', lit ''Error:'',
                       lit ''Failed'']),
      pattern_type = Error, pattern_language = None,
      file_group = None, line_group = None, column_group = None, message_group = 0\<rparr>"

definition general_warning_pattern :: ErrorPattern where
  "general_warning_pattern =
     \<lparr>pattern_name = ''general_warning'', pattern_flags = flag_i,
      pattern_regex =
        Group 1 (alts [lit ''WARN'', lit ''Warning'', lit ''Deprecated'', lit ''Notice'']),
      pattern_type = Warning, pattern_language = None,
      file_group = None, line_group = None, column_group = None, message_group = 0\<rparr>"

definition npm_error_pattern :: ErrorPattern where
  "npm_error_pattern =
     \<lparr>pattern_name = ''npm_error'', pattern_flags = flag_i,
      pattern_regex = seq [lit ''npm ERR!'', Star True Space, Group 1 (one_or_more True Dot)],
      pattern_type = Error, pattern_language = Some ''npm'',
      file_group = None, line_group = None, column_group = None, message_group = 1\<rparr>"

definition docker_error_pattern :: ErrorPattern where
  "docker_error_pattern =
     \<lparr>pattern_name = ''docker_error'', pattern_flags = flag_i,
      pattern_regex =
        seq [lit ''docker: Error response from daemon: '', Group 1 (one_or_more True Dot)],
      pattern_type = Error, pattern_language = Some ''docker'',
      file_group = None, line_group = None, column_group = None, message_group = 1\<rparr>"

text \<open>
  The seeded list, in the order of the source. \<open>addCustomPattern\<close> and \<open>removePattern\<close>
  change the list of an analyzer, so the functions below take the list as it is.
\<close>

definition errorPatterns :: "ErrorPattern list" where
  "errorPatterns =
     [typescript_pattern, javascript_pattern, python_pattern, rust_pattern, go_pattern,
      general_error_pattern, general_warning_pattern, npm_error_pattern,
      docker_error_pattern]"

definition addCustomPattern :: "ErrorPattern list \<Rightarrow> ErrorPattern \<Rightarrow> ErrorPattern list" where
  "addCustomPattern ps p = ps @ [p]"

fun removePattern :: "ErrorPattern list \<Rightarrow> string \<Rightarrow> ErrorPattern list" where
  "removePattern [] name = []"
| "removePattern (p # ps) name =
     (if pattern_name p = name then ps else p # removePattern ps name)"

text \<open>\<open>filePath.split('/').pop() || ''\<close>, then \<open>/^(.+)\.log$/\<close>.\<close>

definition extractPaneIdFromPath :: "string \<Rightarrow> string" where
  "extractPaneIdFromPath filePath =
     (let basename = last (split CHR ''/'' filePath) in
      case js_match no_flags (seq [Bol, Group 1 (one_or_more True Dot), lit ''.log'', Eol]) basename of
        None \<Rightarrow> basename
      | Some m \<Rightarrow> (case match_group m 1 of None \<Rightarrow> basename | Some t \<Rightarrow> t))"

text \<open>The first pattern of the list that matches the line, with its match.\<close>

fun first_match :: "ErrorPattern list \<Rightarrow> string \<Rightarrow> (ErrorPattern \<times> (nat \<times> string) list) option" where
  "first_match [] line = None"
| "first_match (p # ps) line =
     (case js_match (pattern_flags p) (pattern_regex p) line of
        None \<Rightarrow> first_match ps line
      | Some m \<Rightarrow> Some (p, m))"

text \<open>
  A group number is used when it is truthy (not 0). \<open>match[groups.message] || line\<close> takes
  the line when the group is undefined or empty.
\<close>

definition optional_group :: "nat option \<Rightarrow> (nat \<times> string) list \<Rightarrow> string option option" where
  "optional_group g m =
     (case g of None \<Rightarrow> None | Some k \<Rightarrow> if k = 0 then None else Some (match_group m k))"

definition matchErrorPatterns ::
  "ErrorPattern list \<Rightarrow> string \<Rightarrow> string \<Rightarrow> int \<Rightarrow> int \<Rightarrow> int \<Rightarrow> ErrorEntry option" where
  "matchErrorPatterns ps line filePath lineNumber now stamp =
     (case first_match ps line of
        None \<Rightarrow> None
      | Some (p, m) \<Rightarrow>
          Some \<lparr>entry_id = filePath @ '':'' @ show_int lineNumber @ '':'' @ show_int now,
                entry_paneId = extractPaneIdFromPath filePath,
                entry_file = (case optional_group (file_group p) m of
                                None \<Rightarrow> None | Some v \<Rightarrow> v),
                entry_line = map_option parseInt_auto (optional_group (line_group p) m),
                entry_column = map_option parseInt_auto (optional_group (column_group p) m),
                entry_message = (case match_group m (message_group p) of
                                   None \<Rightarrow> line
                                 | Some t \<Rightarrow> if t = [] then line else t),
                entry_type = pattern_type p,
                entry_language = pattern_language p,
                entry_timestamp = stamp\<rparr>)"

definition getMatchingPatternName :: "ErrorPattern list \<Rightarrow> string \<Rightarrow> string option" where
  "getMatchingPatternName ps line =
     map_option pattern_name (find (\<lambda>p. js_test (pattern_flags p) (pattern_regex p) line) ps)"

text \<open>The line of the specification's example, and a line that the docker daemon prints.\<close>

definition typescript_line :: string where
  "typescript_line =
     ''src/index.ts(42,10): error TS2339: Property '' @ [CHR 0x27] @ ''foo'' @ [CHR 0x27] @
     '' does not exist on type '' @ [CHR 0x27] @ ''string'' @ [CHR 0x27] @ ''.''"

definition docker_line :: string where
  "docker_line = ''docker: Error response from daemon: conflict''"

text \<open>
  The failure vocabulary of the two generic patterns, and a line that contains a word,
  whatever the case of its letters.
\<close>

definition error_vocabulary :: "string list" where
  "error_vocabulary = [''ERROR'', ''FAIL'', ''Exception'', ''Error:'', ''Failed'']"

definition warning_vocabulary :: "string list" where
  "warning_vocabulary = [''WARN'', ''Warning'', ''Deprecated'', ''Notice'']"

definition contains_ci :: "string \<Rightarrow> string \<Rightarrow> bool" where
  "contains_ci line w = list_ex (\<lambda>k. starts_ci flag_i w (drop k line)) [0..<Suc (length line)]"

section \<open>ErrorWatcher (class ErrorWatcher of src/core/index.ts)\<close>

text \<open>
  \<open>s.toLowerCase()\<close> on code units below 256, and \<open>s.includes(sub)\<close>.
\<close>

definition to_lower :: "char \<Rightarrow> char" where
  "to_lower c =
     (let n = (of_char c :: nat) in
      if (65 \<le> n \<and> n \<le> 90) \<or> (192 \<le> n \<and> n \<le> 222 \<and> n \<noteq> 215) then char_of (n + 32)
      else c)"

fun includes_str :: "string \<Rightarrow> string \<Rightarrow> bool" where
  "includes_str [] sub = (sub = [])"
| "includes_str (c # cs) sub = (startsWith (c # cs) sub \<or> includes_str cs sub)"

definition detectLanguage :: "string \<Rightarrow> string option" where
  "detectLanguage command =
     (let commands = map to_lower command in
      if includes_str commands ''tsc'' \<or> includes_str commands ''typescript'' then Some ''typescript''
      else if includes_str commands ''cargo'' \<or> includes_str commands ''rust'' then Some ''rust''
      else if includes_str commands ''go '' \<or> includes_str commands ''golang'' then Some ''go''
      else if includes_str commands ''python'' \<or> includes_str commands ''py'' then Some ''python''
      else if includes_str commands ''java'' \<or> includes_str commands ''javac'' then Some ''java''
      else if includes_str commands ''node'' \<or> includes_str commands ''npm'' \<or> includes_str commands ''yarn''
      then Some ''javascript''
      else None)"

definition buildCommands :: "(string \<times> string) list" where
  "buildCommands =
     [(''typescript'', ''tsc --watch --noEmit''),
      (''javascript'', ''eslint --cache --watch''),
      (''rust'', ''cargo check --watch''),
      (''go'', ''go build -watch''),
      (''python'', ''python -m py_compile''),
      (''java'', ''javac -Xlint:all'')]"

text \<open>
  \<open>buildWatchers\<close> holds the panes that have a build process (the process is outside
  the model), \<open>watchedPanes\<close> is the \<open>Set\<close> in insertion order, \<open>maxFileSize\<close> is the option
  handed to the \<open>FileWatcher\<close>.
\<close>

record ErrorWatcher =
  fileWatcher :: FileWatcher
  maxFileSize :: nat
  buildWatchers :: "string list"
  errorCache :: "(string \<times> ErrorEntry list) list"
  watchedPanes :: "string list"

definition new_error_watcher :: ErrorWatcher where
  "new_error_watcher =
     \<lparr>fileWatcher = new_watcher, maxFileSize = 50 * 1024 * 1024, buildWatchers = [],
      errorCache = [], watchedPanes = []\<rparr>"

definition startBuildWatcher :: "ErrorWatcher \<Rightarrow> TmuxPane \<Rightarrow> ErrorWatcher" where
  "startBuildWatcher ew pane =
     (case detectLanguage (pane_command pane) of
        None \<Rightarrow> ew
      | Some language \<Rightarrow>
          (case js_get buildCommands language of
             None \<Rightarrow> ew
           | Some command \<Rightarrow>
               ew\<lparr>buildWatchers :=
                    (if pane_id pane \<in> set (buildWatchers ew) then buildWatchers ew
                     else buildWatchers ew @ [pane_id pane])\<rparr>))"

text \<open>
  \<open>startWatching(pane)\<close>. The callback handed to the tailer is \<open>processLogContent\<close> bound
  to the pane; \<open>callback\<close> is what the tailer sees of it, and \<open>file\<close> is the log file as
  \<open>stat\<close> finds it. When \<open>watchFile\<close> throws, the error is thrown on, after the pane has
  been added to \<open>watchedPanes\<close>. \<open>if (pane.logFile)\<close> takes the empty path for an absent
  one. The \<open>stopWatching\<close> of this class is \<open>stopWatchingPane\<close> here, next to the
  \<open>stopWatching\<close> of the \<open>FileWatcher\<close>; it leaves the tailer of the log file running.
\<close>

definition startWatching ::
  "ErrorWatcher \<Rightarrow> TmuxPane \<Rightarrow> callback \<Rightarrow> string option \<Rightarrow> ErrorWatcher \<times> watch_error option" where
  "startWatching ew pane callback file =
     (if pane_id pane \<in> set (watchedPanes ew) then (ew, None)
      else
        (let ew1 = ew\<lparr>watchedPanes := watchedPanes ew @ [pane_id pane]\<rparr> in
         case pane_logFile pane of
           None \<Rightarrow> (startBuildWatcher ew1 pane, None)
         | Some logFile \<Rightarrow>
             if logFile = [] then (startBuildWatcher ew1 pane, None)
             else
               (case watchFile (fileWatcher ew1) (maxFileSize ew1) logFile callback file of
                  Inl e \<Rightarrow> (ew1, Some e)
                | Inr fw \<Rightarrow> (startBuildWatcher (ew1\<lparr>fileWatcher := fw\<rparr>) pane, None))))"

definition stopWatchingPane :: "ErrorWatcher \<Rightarrow> string \<Rightarrow> ErrorWatcher" where
  "stopWatchingPane ew paneId =
     ew\<lparr>watchedPanes := removeAll paneId (watchedPanes ew),
        buildWatchers := removeAll paneId (buildWatchers ew),
        errorCache := js_delete paneId (errorCache ew)\<rparr>"

text \<open>\<open>addError\<close> keeps the last 100 errors of a pane.\<close>

definition addError :: "ErrorWatcher \<Rightarrow> ErrorEntry \<Rightarrow> ErrorWatcher" where
  "addError ew error =
     (let errors = (case js_get (errorCache ew) (entry_paneId error) of
                      None \<Rightarrow> [] | Some es \<Rightarrow> es) @ [error];
          kept = (if length errors > 100 then drop (length errors - 100) errors else errors)
      in ew\<lparr>errorCache := js_set (entry_paneId error) kept (errorCache ew)\<rparr>)"

definition getErrors :: "ErrorWatcher \<Rightarrow> string \<Rightarrow> ErrorEntry list" where
  "getErrors ew paneId = (case js_get (errorCache ew) paneId of None \<Rightarrow> [] | Some es \<Rightarrow> es)"

definition clearErrors :: "ErrorWatcher \<Rightarrow> string option \<Rightarrow> ErrorWatcher" where
  "clearErrors ew paneId =
     (case paneId of
        None \<Rightarrow> ew\<lparr>errorCache := []\<rparr>
      | Some p \<Rightarrow> if p = [] then ew\<lparr>errorCache := []\<rparr>
                  else ew\<lparr>errorCache := js_delete p (errorCache ew)\<rparr>)"

record summary =
  total_count :: nat
  errors_count :: nat
  warnings_count :: nat

definition count_entries :: "ErrorEntry list \<Rightarrow> summary" where
  "count_entries es =
     \<lparr>total_count = length es,
      errors_count = length (filter (\<lambda>e. entry_type e = Error) es),
      warnings_count = length (filter (\<lambda>e. entry_type e = Warning) es)\<rparr>"

text \<open>
  \<open>getErrorSummary(paneId?)\<close>: \<open>paneId ? ... : this.errorCache\<close> takes the empty string
  for an absent argument.
\<close>

definition getErrorSummary :: "ErrorWatcher \<Rightarrow> string option \<Rightarrow> summary" where
  "getErrorSummary ew paneId =
     (case paneId of
        None \<Rightarrow> count_entries (concat (map snd (errorCache ew)))
      | Some p \<Rightarrow> if p = [] then count_entries (concat (map snd (errorCache ew)))
                  else count_entries (getErrors ew p))"

definition getWatchedPanes :: "ErrorWatcher \<Rightarrow> string list" where
  "getWatchedPanes ew = watchedPanes ew"

text \<open>A pane that runs a shell and has no log file.\<close>

definition shell_pane :: TmuxPane where
  "shell_pane =
     \<lparr>pane_id = ''dev:0.0'', pane_nativeId = Some ''%3'', pane_windowId = ''@0'',
      pane_sessionName = ''dev'', pane_index = 0, pane_title = [], pane_command = ''bash'',
      pane_pid = 4242, pane_logFile = None, pane_active = True\<rparr>"

text \<open>
  An entry as \<open>matchErrorPatterns\<close> makes it for the pane \<open>dev:0.0\<close> from a line of
  \<open>tsc\<close>, and one of type \<open>warning\<close>, which a pattern added by \<open>addCustomPattern\<close> can
  give.
\<close>

definition property_error :: ErrorEntry where
  "property_error =
     \<lparr>entry_id = ''dev:0.0:1700000000000:k3x9q2m7p'', entry_paneId = ''dev:0.0'',
      entry_file = Some ''src/index.ts'', entry_line = Some (Some 42),
      entry_column = Some (Some 10), entry_message = ''Property does not exist'',
      entry_type = Error, entry_language = Some ''typescript'',
      entry_timestamp = 1700000000000\<rparr>"

definition unused_warning :: ErrorEntry where
  "unused_warning =
     \<lparr>entry_id = ''dev:0.0:1700000000500:b7w1z5r8c'', entry_paneId = ''dev:0.0'',
      entry_file = Some ''src/index.ts'', entry_line = Some (Some 7),
      entry_column = Some (Some 3), entry_message = ''Unused variable'',
      entry_type = Warning, entry_language = Some ''typescript'',
      entry_timestamp = 1700000000500\<rparr>"
section \<open>CommandEscaper.validateCommand (class CommandEscaper of src/utils/errors.ts)\<close>

definition dangerousCommands :: "string list" where
  "dangerousCommands =
     [''rm'', ''rmdir'', ''dd'', ''mkfs'', ''fdisk'', ''sudo'', ''su'', ''chmod'', ''chown'',
      ''kill'', ''killall'', ''pkill'', ''halt'', ''reboot'', ''shutdown'', ''format'', ''del'',
      ''deltree'']"

definition safeDevelopmentCommands :: "string list" where
  "safeDevelopmentCommands =
     [''node'', ''npm'', ''yarn'', ''pnpm'', ''python'', ''python3'', ''pip'', ''cargo'',
      ''rustc'', ''go'', ''java'', ''javac'', ''tsc'', ''tsx'', ''jest'', ''vitest'', ''mocha'',
      ''pytest'', ''git'', ''docker'', ''docker-compose'', ''make'', ''cmake'', ''webpack'',
      ''vite'', ''rollup'', ''esbuild'', ''ls'', ''cat'', ''echo'', ''pwd'', ''cd'', ''mkdir'',
      ''touch'', ''cp'', ''mv'', ''grep'', ''find'', ''which'', ''whereis'', ''ps'', ''top'',
      ''htop'', ''curl'', ''wget'', ''ping'', ''netstat'', ''lsof'']"

text \<open>\<open>args.join(' ')\<close>.\<close>

fun join_space :: "string list \<Rightarrow> string" where
  "join_space [] = []"
| "join_space [a] = a"
| "join_space (a # as) = a @ '' '' @ join_space as"

text \<open>The five \<open>suspiciousPatterns\<close>, each with the flag \<open>i\<close>.\<close>

definition destructive_verb :: regex where
  "destructive_verb = Group 1 (alts [lit ''rm'', lit ''del'', lit ''format''])"

definition suspiciousPatterns :: "regex list" where
  "suspiciousPatterns =
     [seq [Chr CHR '';'', Star True Space, destructive_verb],
      seq [Chr CHR ''|'', Star True Space, destructive_verb],
      seq [lit ''&&'', Star True Space, destructive_verb],
      seq [lit ''$('', Star True (NotChr CHR '')''), lit ''rm'', Star True (NotChr CHR '')''),
           Chr CHR '')''],
      seq [Chr CHR 0x60, Star True (NotChr CHR 0x60), lit ''rm'', Star True (NotChr CHR 0x60),
           Chr CHR 0x60]]"

text \<open>\<open>command.split('/').pop() || command\<close>.\<close>

definition baseCommand :: "string \<Rightarrow> string" where
  "baseCommand command =
     (let b = last (split CHR ''/'' command) in if b = [] then command else b)"

text \<open>
  \<open>validateCommand\<close> throws or returns. What it throws is the \<open>Inl\<close> of the result (the
  message of the \<open>Error\<close> is built from the value kept here); when it returns, the result
  holds the command named in the warning it logged, if it logged one.
\<close>

datatype validation_error = DangerousBlocked string | SuspiciousPattern string

definition validateCommand ::
  "bool \<Rightarrow> string \<Rightarrow> string list \<Rightarrow> validation_error + string option" where
  "validateCommand allowDangerous command args =
     (let base = baseCommand command in
      if base \<in> set dangerousCommands \<and> \<not> allowDangerous then Inl (DangerousBlocked base)
      else
        (let allArgs = join_space args in
         if list_ex (\<lambda>pattern. js_test flag_i pattern allArgs) suspiciousPatterns
         then Inl (SuspiciousPattern allArgs)
         else if base \<notin> set safeDevelopmentCommands \<and> base \<noteq> ''tmux'' then Inr (Some base)
         else Inr None))"

text \<open>\<open>isCommandSafe\<close>: \<open>safe\<close>, and the error caught as the reason.\<close>

definition isCommandSafe ::
  "bool \<Rightarrow> string \<Rightarrow> string list \<Rightarrow> bool \<times> validation_error option" where
  "isCommandSafe allowDangerous command args =
     (case validateCommand allowDangerous command args of
        Inl e \<Rightarrow> (False, Some e)
      | Inr w \<Rightarrow> (True, None))"



section \<open>PaneIdResolver: round trips and clearSession\<close>

declare show_nat.simps [simp del]

lemma structured_get_updateLastSeen:
  "map_option nativeId (structured_get (updateLastSeen r t k) x) =
   map_option nativeId (structured_get r x)"
  by (auto simp: structured_get_def updateLastSeen_def deref_def nth_list_update
      split: option.splits if_splits)

lemma native_get_updateLastSeen:
  "map_option structuredId (native_get (updateLastSeen r t k) x) =
   map_option structuredId (native_get r x)"
  by (auto simp: native_get_def updateLastSeen_def deref_def nth_list_update
      split: option.splits if_splits)

lemma live_after_registerPane:
  "live (snd (registerPane r now h s w p)) h (buildStructuredId s w p)"
  by (simp add: live_def registerPane_def Let_def native_get_def structured_get_def
      js_get_def js_set_def update_conv' deref_def)

lemma live_roundtrip_from_native:
  assumes "live r h sid" "startsWith h ''%''" "\<not> startsWith sid ''%''"
  shows "roundtrip_from_native r t1 t2 h = h"
proof -
  from assms(1) obtain m where m: "native_get r h = Some m" "structuredId m = sid"
    by (auto simp: live_def split: option.splits)
  from assms(1) obtain m' where m': "structured_get r sid = Some m'" "nativeId m' = h"
    by (auto simp: live_def split: option.splits)
  have "map_option nativeId (structured_get (updateLastSeen r t1 h) sid) = Some h"
    using m' by (simp add: structured_get_updateLastSeen)
  then obtain m2 where "structured_get (updateLastSeen r t1 h) sid = Some m2" "nativeId m2 = h"
    by auto
  then show ?thesis
    using m assms(2,3)
    by (simp add: roundtrip_from_native_def resolveToStructured_def resolveToNative_def)
qed

lemma live_roundtrip_from_structured:
  assumes "live r h sid" "startsWith h ''%''" "\<not> startsWith sid ''%''"
  shows "roundtrip_from_structured r t1 t2 sid = sid"
proof -
  from assms(1) obtain m where m: "native_get r h = Some m" "structuredId m = sid"
    by (auto simp: live_def split: option.splits)
  from assms(1) obtain m' where m': "structured_get r sid = Some m'" "nativeId m' = h"
    by (auto simp: live_def split: option.splits)
  have "map_option structuredId (native_get (updateLastSeen r t1 h) h) = Some sid"
    using m by (simp add: native_get_updateLastSeen)
  then obtain m2 where "native_get (updateLastSeen r t1 h) h = Some m2" "structuredId m2 = sid"
    by auto
  then show ?thesis
    using m' assms(2,3)
    by (simp add: roundtrip_from_structured_def resolveToStructured_def resolveToNative_def)
qed

lemma test_session_id: "buildStructuredId ''test-session'' 0 0 = ''test-session:0.0''"
  by code_simp

text \<open>
  C1, as stated, fails. The resolver tells a native handle from a structured id by the
  first character alone (\<open>%\<close>). A pane registered under the handle \<open>3\<close> is live in both
  maps, yet \<open>resolveToStructured(resolveToNative("s:0.0"))\<close> is \<open>3\<close>: the handle does not
  look native and comes back as it is. A pane of the session named \<open>%s\<close> is live too, yet
  \<open>resolveToNative(resolveToStructured("%1"))\<close> is \<open>%s:0.0\<close>: the structured id looks
  native and comes back as it is.
\<close>

theorem roundtrip_counterexample:
  "live (snd (registerPane new_resolver 0 ''3'' ''s'' 0 0)) ''3'' ''s:0.0'' \<and>
   roundtrip_from_structured (snd (registerPane new_resolver 0 ''3'' ''s'' 0 0)) 1 2 ''s:0.0''
     = ''3'' \<and>
   live (snd (registerPane new_resolver 0 ''%1'' ''%s'' 0 0)) ''%1'' ''%s:0.0'' \<and>
   roundtrip_from_native (snd (registerPane new_resolver 0 ''%1'' ''%s'' 0 0)) 1 2 ''%1''
     = ''%s:0.0''"
  by code_simp

text \<open>
  C1, amended. \<open>registerPane(h0, s, w, p)\<close> leaves the pair of \<open>h0\<close> and \<open>s:w.p\<close> live. For
  every resolver state, every native handle \<open>h\<close> that starts with \<open>%\<close> and every structured
  id \<open>sid\<close> that does not: while the pair is live (each map holds it),
  \<open>resolveToNative(resolveToStructured(h))\<close> is \<open>h\<close> and
  \<open>resolveToStructured(resolveToNative(sid))\<close> is \<open>sid\<close>.
\<close>

theorem registered_live_roundtrip:
  "live (snd (registerPane r0 now h0 s w p)) h0 (buildStructuredId s w p) \<and>
   (live r h sid \<and> startsWith h ''%'' \<and> \<not> startsWith sid ''%'' \<longrightarrow>
      roundtrip_from_native r t1 t2 h = h \<and> roundtrip_from_structured r t1 t2 sid = sid)"
  using live_after_registerPane live_roundtrip_from_native live_roundtrip_from_structured
  by blast

theorem registered_live_roundtrip_witness:
  "live (snd (registerPane new_resolver 0 ''%3'' ''test-session'' 0 0))
     ''%3'' ''test-session:0.0'' \<and>
   startsWith ''%3'' ''%'' \<and> \<not> startsWith ''test-session:0.0'' ''%'' \<and>
   roundtrip_from_native (snd (registerPane new_resolver 0 ''%3'' ''test-session'' 0 0)) 1 2
     ''%3'' = ''%3'' \<and>
   roundtrip_from_structured (snd (registerPane new_resolver 0 ''%3'' ''test-session'' 0 0)) 1 2
     ''test-session:0.0'' = ''test-session:0.0''"
proof -
  let ?r = "snd (registerPane new_resolver 0 ''%3'' ''test-session'' 0 0)"
  have l: "live ?r ''%3'' ''test-session:0.0''"
    using registered_live_roundtrip [where ?r0.0 = new_resolver and now = 0
        and ?h0.0 = "''%3''" and s = "''test-session''" and w = 0 and p = 0]
    by (simp add: test_session_id)
  have s: "startsWith ''%3'' ''%''" "\<not> startsWith ''test-session:0.0'' ''%''"
    by (simp_all add: startsWith_def)
  show ?thesis
    using l s registered_live_roundtrip [where r = ?r and h = "''%3''"
        and sid = "''test-session:0.0''" and ?t1.0 = 1 and ?t2.0 = 2]
    by blast
qed

text \<open>
  C2 at the failing input. After \<open>clearSession("a")\<close> on \<open>moved_pane\<close>,
  \<open>nativeToStructured\<close> is empty, and \<open>structuredToNative\<close> still holds the mapping of
  \<open>a:0.0\<close>, whose session is \<open>a\<close>: \<open>registerPane\<close> left it there when \<open>%1\<close> was registered
  again at \<open>a:1.0\<close>, and \<open>clearSession\<close> walks \<open>nativeToStructured\<close> only. The cleared
  session's id still resolves to \<open>%1\<close>.
\<close>

theorem clearSession_leaves_stale_mapping:
  "native_values (clearSession moved_pane ''a'') = [] \<and>
   map structuredId (structured_values (clearSession moved_pane ''a'')) = [''a:0.0''] \<and>
   map sessionName (structured_values (clearSession moved_pane ''a'')) = [''a''] \<and>
   fst (resolveToNative (clearSession moved_pane ''a'') 2 ''a:0.0'') = ''%1''"
  by code_simp

section \<open>The escaper is the ordered composition of the eight replacements\<close>

lemma replace_all_append:
  "replace_all c rep (xs @ ys) = replace_all c rep xs @ replace_all c rep ys"
  by (induction xs) simp_all

lemma escape_append:
  "escapeForTmuxSendKeys (xs @ ys) = escapeForTmuxSendKeys xs @ escapeForTmuxSendKeys ys"
  by (simp add: escapeForTmuxSendKeys_def replace_all_append)

lemma escape_single: "escapeForTmuxSendKeys [c] = escape_char c"
  by (simp add: escapeForTmuxSendKeys_def escape_char_def)

lemma escape_Nil: "escapeForTmuxSendKeys [] = []"
  by (simp add: escapeForTmuxSendKeys_def)

lemma escape_Cons: "escapeForTmuxSendKeys (c # cs) = escape_char c @ escapeForTmuxSendKeys cs"
  using escape_append [of "[c]" cs] by (simp add: escape_single)

lemma escape_per_char: "escapeForTmuxSendKeys s = concat (map escape_char s)"
  by (induction s) (simp_all add: escape_Nil escape_Cons)

text \<open>
  C3. For every command string, \<open>escapeForTmuxSendKeys\<close> is the composition of the eight
  replacements in the order backslash, double quote, single quote, dollar sign, backtick,
  semicolon, pipe, ampersand. Since the backslash pass runs first and no later pass
  rewrites a character that an earlier one wrote, the result is also the input with each
  of its characters replaced by its own escape, independently of the others.
\<close>

theorem escape_is_ordered_composition:
  "escapeForTmuxSendKeys command = escape_in_order command \<and>
   escapeForTmuxSendKeys command = concat (map escape_char command)"
  by (simp add: escape_per_char [symmetric] escapeForTmuxSendKeys_def escape_in_order_def
      escape_ampersand_def escape_pipe_def escape_semicolon_def escape_backtick_def
      escape_dollar_def escape_single_quote_def escape_double_quote_def escape_backslash_def)

section \<open>FileWatcher: what a change notification reads and delivers\<close>

lemma watching_by_watchFile:
  "watchFile new_watcher 10485760 ''/l'' callback (Some []) = Inr (watching_at callback 0)"
  by (simp add: watchFile_def new_watcher_def watching_at_def js_set_def)

lemma watching_at_callback: "js_get (callbacks (watching_at callback n)) ''/l'' = Some callback"
  by (simp add: watching_at_def js_get_def)

lemma watching_at_position: "currentPosition (watching_at callback n) ''/l'' = n"
  by (simp add: watching_at_def currentPosition_def js_get_def)

lemma currentPosition_set [simp]:
  "currentPosition (fw\<lparr>filePositions := js_set p n (filePositions fw)\<rparr>) q =
     (if q = p then n else currentPosition fw q)"
  by (simp add: currentPosition_def js_get_def js_set_def update_conv')

lemma callbacks_handleFileChange [simp]:
  "callbacks (fst (handleFileChange fw p file)) = callbacks fw"
  by (simp add: handleFileChange_def Let_def split: option.splits)





section \<open>FileWatcher: the offset over a run of notifications\<close>

text \<open>
  A handler that runs alone, on a file that stays as it is, does what \<open>handleFileChange\<close>
  says.
\<close>

lemma handleFileChange_uninterrupted:
  "notifications fw p [] [Change, Settled 0 file, Settled 0 file, Settled 0 file, Settled 0 file] =
     ((fst (handleFileChange fw p file), []), snd (handleFileChange fw p file))"
  by (simp add: handleFileChange_def start_handler_def Let_def split: option.splits)

lemma notifications_append:
  "notifications fw p hs (evs @ evs') =
     (case notifications fw p hs evs of
        ((fw1, hs1), es) \<Rightarrow>
          (case notifications fw1 p hs1 evs' of (s, es') \<Rightarrow> (s, es @ es')))"
  by (induction evs arbitrary: fw hs) (simp_all add: case_prod_beta)

lemma one_at_a_time_append:
  "one_at_a_time fw p hs (evs @ evs') =
     (one_at_a_time fw p hs evs \<and>
      one_at_a_time (fst (fst (notifications fw p hs evs))) p
        (snd (fst (notifications fw p hs evs))) evs')"
  by (induction evs arbitrary: fw hs) (simp_all add: case_prod_beta)

lemma lone_step:
  assumes "hs = [] \<or> hs = [AwaitClose] \<or> (\<exists>cb. hs = [AwaitStat cb (currentPosition fw p)]) \<or>
      (\<exists>cb n. (hs = [AwaitOpen cb (currentPosition fw p) n] \<or>
                hs = [AwaitRead cb (currentPosition fw p) n]) \<and> currentPosition fw p < n)"
    and "e = Change \<longrightarrow> hs = []"
  shows "(let s = fst (step fw p hs e); fw' = fst s; hs' = snd s in
      (hs' = [] \<or> hs' = [AwaitClose] \<or> (\<exists>cb. hs' = [AwaitStat cb (currentPosition fw' p)]) \<or>
       (\<exists>cb n. (hs' = [AwaitOpen cb (currentPosition fw' p) n] \<or>
                 hs' = [AwaitRead cb (currentPosition fw' p) n]) \<and> currentPosition fw' p < n)) \<and>
      (currentPosition fw p \<le> currentPosition fw' p \<or>
       (case e of
          Settled i (Some content) \<Rightarrow>
            length content < currentPosition fw p \<and> currentPosition fw' p = 0
        | _ \<Rightarrow> False)))"
proof (cases e)
  case Change
  then show ?thesis
    using assms by (simp add: start_handler_def split: option.splits)
next
  case (Settled i f)
  show ?thesis
  proof (cases "i < length hs")
    case False
    then show ?thesis
      using assms(1) Settled by (simp split: option.splits)
  next
    case True
    then have i: "i = 0"
      using assms(1) by auto
    consider "hs = [AwaitClose]" | cb where "hs = [AwaitStat cb (currentPosition fw p)]"
      | cb n where "hs = [AwaitOpen cb (currentPosition fw p) n]" "currentPosition fw p < n"
      | cb n where "hs = [AwaitRead cb (currentPosition fw p) n]" "currentPosition fw p < n"
      using assms(1) True by auto
    then show ?thesis
    proof cases
      case 1
      then show ?thesis
        unfolding Settled i by simp
    next
      case 2
      then show ?thesis
        unfolding Settled i by (simp add: Let_def split: option.splits)
    next
      case 3
      then show ?thesis
        unfolding Settled i by (simp add: Let_def split: option.splits)
    next
      case 4
      then show ?thesis
        unfolding Settled i by (simp add: Let_def split: option.splits)
    qed
  qed
qed

lemma lone_run:
  assumes "one_at_a_time fw p hs evs"
    and "hs = [] \<or> hs = [AwaitClose] \<or> (\<exists>cb. hs = [AwaitStat cb (currentPosition fw p)]) \<or>
      (\<exists>cb n. (hs = [AwaitOpen cb (currentPosition fw p) n] \<or>
                hs = [AwaitRead cb (currentPosition fw p) n]) \<and> currentPosition fw p < n)"
  shows "(let s = fst (notifications fw p hs evs); fw' = fst s; hs' = snd s in
      hs' = [] \<or> hs' = [AwaitClose] \<or> (\<exists>cb. hs' = [AwaitStat cb (currentPosition fw' p)]) \<or>
      (\<exists>cb n. (hs' = [AwaitOpen cb (currentPosition fw' p) n] \<or>
                hs' = [AwaitRead cb (currentPosition fw' p) n]) \<and> currentPosition fw' p < n))"
  using assms
proof (induction evs arbitrary: fw hs)
  case Nil
  then show ?case by simp
next
  case (Cons e evs)
  let ?s = "fst (step fw p hs e)"
  have ex: "e = Change \<longrightarrow> hs = []" and rest: "one_at_a_time (fst ?s) p (snd ?s) evs"
    using Cons.prems(1) by (simp_all add: case_prod_beta)
  have inv: "snd ?s = [] \<or> snd ?s = [AwaitClose] \<or>
      (\<exists>cb. snd ?s = [AwaitStat cb (currentPosition (fst ?s) p)]) \<or>
      (\<exists>cb n. (snd ?s = [AwaitOpen cb (currentPosition (fst ?s) p) n] \<or>
                snd ?s = [AwaitRead cb (currentPosition (fst ?s) p) n]) \<and>
               currentPosition (fst ?s) p < n)"
    using lone_step [OF Cons.prems(2) ex] by (simp add: Let_def)
  have "fst (notifications fw p hs (e # evs)) = fst (notifications (fst ?s) p (snd ?s) evs)"
    by (simp add: case_prod_beta)
  then show ?case
    using Cons.IH [OF rest inv] by simp
qed

lemma offset_law:
  assumes "one_at_a_time fw p [] (evs @ [e])"
  shows "(let s = fst (notifications fw p [] evs);
              fw' = fst (fst (step (fst s) p (snd s) e)) in
          currentPosition (fst s) p \<le> currentPosition fw' p \<or>
          (case e of
             Settled i (Some content) \<Rightarrow>
               length content < currentPosition (fst s) p \<and> currentPosition fw' p = 0
           | _ \<Rightarrow> False))"
proof -
  let ?s = "fst (notifications fw p [] evs)"
  have run: "one_at_a_time fw p [] evs" and ex: "e = Change \<longrightarrow> snd ?s = []"
    using assms by (simp_all add: one_at_a_time_append)
  have inv: "snd ?s = [] \<or> snd ?s = [AwaitClose] \<or>
      (\<exists>cb. snd ?s = [AwaitStat cb (currentPosition (fst ?s) p)]) \<or>
      (\<exists>cb n. (snd ?s = [AwaitOpen cb (currentPosition (fst ?s) p) n] \<or>
                snd ?s = [AwaitRead cb (currentPosition (fst ?s) p) n]) \<and>
               currentPosition (fst ?s) p < n)"
    using lone_run [OF run] by (simp add: Let_def)
  show ?thesis
    using lone_step [OF inv ex] by (simp add: Let_def)
qed

lemma grows_last: "grows c ds \<Longrightarrow> take (length c) (last (c # ds)) = c"
proof (induction ds arbitrary: c)
  case Nil
  then show ?case by simp
next
  case (Cons d ds)
  then have d: "take (length c) d = c" and l: "take (length d) (last (d # ds)) = d"
    by simp_all
  have le: "length c \<le> length d"
    using d by (metis length_take min.cobounded2 min.commute)
  have "take (length c) (last (d # ds)) = take (length c) (take (length d) (last (d # ds)))"
    using le by (simp add: min.absorb1 del: last.simps)
  also have "\<dots> = c"
    using d l by (simp del: last.simps)
  finally show ?case
    by (simp del: last.simps add: last_ConsR)
qed

lemma chunks_append: "chunks (es @ es') = chunks es @ chunks es'"
  by (induction es rule: chunks.induct) simp_all

lemma delivered_append: "delivered (es @ es') = delivered es @ delivered es'"
  by (induction es rule: delivered.induct) simp_all

lemma prefix_length: "take (length c) d = c \<Longrightarrow> length c \<le> length d"
  by (metis length_take min.cobounded2 min.commute)

lemma range_of_prefix:
  assumes "take (length c) d = c" "n \<le> length c"
  shows "take (n - m) (drop m c) = take (n - m) (drop m d)"
proof -
  have "drop m c = take (length c - m) (drop m d)"
    using assms(1) by (metis drop_take)
  then show ?thesis
    using assms(2) by (simp add: min.absorb1)
qed

lemma ranges_join:
  assumes "m \<le> n" "n \<le> k"
  shows "take (n - m) (drop m d) @ take (k - n) (drop n d) = take (k - m) (drop m d)"
proof -
  have "take ((n - m) + (k - n)) (drop m d) =
        take (n - m) (drop m d) @ take (k - n) (drop (n - m) (drop m d))"
    by (rule take_add)
  then show ?thesis
    using assms by simp
qed

lemma returning_step:
  assumes cb: "js_get (callbacks fw) p = Some callback" and ret: "\<forall>t. callback t"
    and pos: "currentPosition fw p \<le> length c"
    and inv: "hs = [] \<or> hs = [AwaitClose] \<or> hs = [AwaitStat callback (currentPosition fw p)] \<or>
      (\<exists>n. (hs = [AwaitOpen callback (currentPosition fw p) n] \<or>
             hs = [AwaitRead callback (currentPosition fw p) n]) \<and>
            currentPosition fw p < n \<and> n \<le> length c)"
    and ex: "e = Change \<longrightarrow> hs = []"
    and obs: "grows c (observed [e])"
  shows "(let r = step fw p hs e; fw' = fst (fst r); hs' = snd (fst r); es = snd r;
              c' = last (c # observed [e]) in
      js_get (callbacks fw') p = Some callback \<and>
      currentPosition fw p \<le> currentPosition fw' p \<and> currentPosition fw' p \<le> length c' \<and>
      (hs' = [] \<or> hs' = [AwaitClose] \<or> hs' = [AwaitStat callback (currentPosition fw' p)] \<or>
       (\<exists>n. (hs' = [AwaitOpen callback (currentPosition fw' p) n] \<or>
              hs' = [AwaitRead callback (currentPosition fw' p) n]) \<and>
             currentPosition fw' p < n \<and> n \<le> length c')) \<and>
      bytes_read es =
        take (currentPosition fw' p - currentPosition fw p) (drop (currentPosition fw p) c') \<and>
      delivered es = filter (\<lambda>t. \<not> utf8_blank t) (chunks es))"
proof (cases e)
  case Change
  then show ?thesis
    using cb pos ex by (simp add: start_handler_def bytes_read_def)
next
  case (Settled i f)
  show ?thesis
  proof (cases "i < length hs")
    case False
    show ?thesis
    proof (cases f)
      case None
      then show ?thesis
        using False Settled cb pos inv by (simp add: bytes_read_def)
    next
      case (Some d)
      then have "length c \<le> length d"
        using obs Settled by (simp add: prefix_length)
      then show ?thesis
        using False Settled Some cb pos inv by (auto simp add: bytes_read_def)
    qed
  next
    case True
    then have i: "i = 0"
      using inv by auto
    consider "hs = [AwaitClose]" | "hs = [AwaitStat callback (currentPosition fw p)]"
      | n where "hs = [AwaitOpen callback (currentPosition fw p) n]" "currentPosition fw p < n"
          "n \<le> length c"
      | n where "hs = [AwaitRead callback (currentPosition fw p) n]" "currentPosition fw p < n"
          "n \<le> length c"
      using inv True by auto
    then show ?thesis
    proof cases
      case 1
      show ?thesis
      proof (cases f)
        case None
        then show ?thesis
          using 1 cb pos unfolding Settled i by (simp add: bytes_read_def)
      next
        case (Some d)
        then have "length c \<le> length d"
          using obs Settled by (simp add: prefix_length)
        then show ?thesis
          using 1 Some cb pos unfolding Settled i by (simp add: bytes_read_def)
      qed
    next
      case 2
      show ?thesis
      proof (cases f)
        case None
        then show ?thesis
          using 2 cb pos unfolding Settled i by (simp add: bytes_read_def)
      next
        case (Some d)
        then have "length c \<le> length d"
          using obs Settled by (simp add: prefix_length)
        then show ?thesis
          using 2 Some cb pos unfolding Settled i by (simp add: bytes_read_def Let_def)
      qed
    next
      case 3
      show ?thesis
      proof (cases f)
        case None
        then show ?thesis
          using 3 cb pos unfolding Settled i by (simp add: bytes_read_def)
      next
        case (Some d)
        then have "length c \<le> length d"
          using obs Settled by (simp add: prefix_length)
        then show ?thesis
          using 3 Some cb pos unfolding Settled i by (simp add: bytes_read_def)
      qed
    next
      case 4
      show ?thesis
      proof (cases f)
        case None
        then show ?thesis
          using 4 cb pos unfolding Settled i by (simp add: bytes_read_def)
      next
        case (Some d)
        then have le: "length c \<le> length d"
          using obs Settled by (simp add: prefix_length)
        then have n: "n \<le> length d"
          using 4(3) by simp
        have buf: "take (n - currentPosition fw p)
              (drop (currentPosition fw p) d @ replicate (n - currentPosition fw p) (CHR 0x00)) =
            take (n - currentPosition fw p) (drop (currentPosition fw p) d)"
          using n by simp
        show ?thesis
          using 4 Some cb ret n unfolding Settled i
          by (simp add: bytes_read_def Let_def buf del: utf8_blank.simps)
      qed
    qed
  qed
qed

lemma observed_Cons: "observed (e # evs) = observed [e] @ observed evs"
  by (cases e; cases "case e of Settled i f \<Rightarrow> f | _ \<Rightarrow> None") auto

lemma grows_append: "grows c (ds @ ds') = (grows c ds \<and> grows (last (c # ds)) ds')"
  by (induction ds arbitrary: c) simp_all

lemma returning_run:
  assumes cb: "js_get (callbacks fw) p = Some callback" and ret: "\<forall>t. callback t"
    and ex: "one_at_a_time fw p hs evs"
    and pos: "currentPosition fw p \<le> length c"
    and obs: "grows c (observed evs)"
    and inv: "hs = [] \<or> hs = [AwaitClose] \<or> hs = [AwaitStat callback (currentPosition fw p)] \<or>
      (\<exists>n. (hs = [AwaitOpen callback (currentPosition fw p) n] \<or>
             hs = [AwaitRead callback (currentPosition fw p) n]) \<and>
            currentPosition fw p < n \<and> n \<le> length c)"
  shows "(let r = notifications fw p hs evs; fw' = fst (fst r); es = snd r;
              file = last (c # observed evs) in
      currentPosition fw p \<le> currentPosition fw' p \<and> currentPosition fw' p \<le> length file \<and>
      bytes_read es =
        take (currentPosition fw' p - currentPosition fw p) (drop (currentPosition fw p) file) \<and>
      delivered es = filter (\<lambda>t. \<not> utf8_blank t) (chunks es))"
  using cb ex pos obs inv
proof (induction evs arbitrary: fw hs c)
  case Nil
  then show ?case
    by (simp add: bytes_read_def)
next
  case (Cons e evs)
  let ?r = "step fw p hs e"
  let ?fw = "fst (fst ?r)"
  let ?hs = "snd (fst ?r)"
  let ?c = "last (c # observed [e])"
  let ?t = "notifications ?fw p ?hs evs"
  let ?file = "last (?c # observed evs)"
  have e: "e = Change \<longrightarrow> hs = []" and rest: "one_at_a_time ?fw p ?hs evs"
    using Cons.prems(2) by (simp_all add: case_prod_beta)
  have g: "grows c (observed [e])" "grows ?c (observed evs)"
    using Cons.prems(4) observed_Cons [of e evs] by (simp_all add: grows_append)
  note st = returning_step [OF Cons.prems(1) ret Cons.prems(3) Cons.prems(5) e g(1),
      unfolded Let_def]
  have cb': "js_get (callbacks ?fw) p = Some callback" and pos': "currentPosition ?fw p \<le> length ?c"
    and mono: "currentPosition fw p \<le> currentPosition ?fw p"
    using st by simp_all
  have inv': "?hs = [] \<or> ?hs = [AwaitClose] \<or> ?hs = [AwaitStat callback (currentPosition ?fw p)] \<or>
      (\<exists>n. (?hs = [AwaitOpen callback (currentPosition ?fw p) n] \<or>
             ?hs = [AwaitRead callback (currentPosition ?fw p) n]) \<and>
            currentPosition ?fw p < n \<and> n \<le> length ?c)"
    using st by blast
  note ih = Cons.IH [OF cb' rest pos' g(2) inv', unfolded Let_def]
  have fl: "last (c # observed (e # evs)) = ?file"
    using observed_Cons [of e evs] by (simp add: last_append)
  have run: "notifications fw p hs (e # evs) = (fst ?t, snd ?r @ snd ?t)"
    by (simp add: case_prod_beta)
  have pre: "take (length ?c) ?file = ?c"
    using g(2) by (rule grows_last)
  have first: "bytes_read (snd ?r) =
      take (currentPosition ?fw p - currentPosition fw p) (drop (currentPosition fw p) ?file)"
    using st range_of_prefix [OF pre pos'] by simp
  have "bytes_read (snd ?r @ snd ?t) = bytes_read (snd ?r) @ bytes_read (snd ?t)"
    by (simp add: bytes_read_def chunks_append)
  also have "\<dots> =
      take (currentPosition (fst (fst ?t)) p - currentPosition fw p)
        (drop (currentPosition fw p) ?file)"
    using first ih ranges_join [OF mono, of "currentPosition (fst (fst ?t)) p" ?file] by simp
  finally have bytes: "bytes_read (snd ?r @ snd ?t) =
      take (currentPosition (fst (fst ?t)) p - currentPosition fw p)
        (drop (currentPosition fw p) ?file)" .
  have dl: "delivered (snd ?r @ snd ?t) =
      filter (\<lambda>t. \<not> utf8_blank t) (chunks (snd ?r @ snd ?t))"
    using st ih by (simp add: delivered_append chunks_append)
  show ?case
    unfolding run fl Let_def using mono ih bytes dl by simp
qed

lemma callbacks_step [simp]: "callbacks (fst (fst (step fw p hs e))) = callbacks fw"
proof (cases e)
  case Change
  then show ?thesis
    by (simp add: start_handler_def split: option.splits)
next
  case (Settled i f)
  show ?thesis
  proof (cases "i < length hs")
    case True
    have "callbacks (fst (fst (resume fw p h f))) = callbacks fw" for h
      by (cases h) (simp_all add: Let_def split: option.splits)
    then show ?thesis
      using True Settled by (simp add: case_prod_beta split: option.splits)
  next
    case False
    then show ?thesis
      using Settled by simp
  qed
qed

lemma callbacks_notifications [simp]:
  "callbacks (fst (fst (notifications fw p hs evs))) = callbacks fw"
  by (induction evs arbitrary: fw hs) (simp_all add: case_prod_beta)

lemma handled_from_offset:
  assumes "js_get (callbacks fw) p = Some callback" "\<forall>t. callback t"
    and "currentPosition fw p \<le> length a" "length a \<le> length c"
  shows "currentPosition (fst (fst (notifications fw p [] (handled a b c d)))) p = length a"
  using assms by (simp add: handled_def start_handler_def Let_def del: utf8_blank.simps)

lemma truncated_then_run:
  assumes "js_get (callbacks fw) p = Some callback"
    and "length c < currentPosition fw p"
  shows "notifications fw p [] (Change # Settled 0 (Some c) # evs) =
     notifications (fw\<lparr>filePositions := js_set p 0 (filePositions fw)\<rparr>) p [] evs \<and>
     one_at_a_time fw p [] (Change # Settled 0 (Some c) # evs) =
     one_at_a_time (fw\<lparr>filePositions := js_set p 0 (filePositions fw)\<rparr>) p [] evs"
  using assms by (simp add: start_handler_def Let_def case_prod_beta)

lemma observed_append: "observed (evs @ evs') = observed evs @ observed evs'"
  by (induction evs rule: observed.induct) simp_all

lemma observed_handled: "observed (handled a b c d) = [a, b, c, d]"
  by (simp add: handled_def)

lemma returning_handled:
  assumes cb: "js_get (callbacks fw) p = Some callback" and ret: "\<forall>t. callback t"
    and ex: "one_at_a_time fw p [] (evs @ handled a b c1 d)"
    and pos: "currentPosition fw p \<le> length c"
    and obs: "grows c (observed (evs @ handled a b c1 d))"
  shows "currentPosition (fst (fst (notifications fw p [] (evs @ handled a b c1 d)))) p = length a"
proof -
  let ?s = "fst (notifications fw p [] evs)"
  let ?file = "last (c # observed evs)"
  have run: "one_at_a_time fw p [] evs" and none: "snd ?s = []"
    using ex by (simp_all add: one_at_a_time_append handled_def)
  have g: "grows c (observed evs)" "grows ?file [a, b, c1, d]"
    using obs by (simp_all add: observed_append observed_handled grows_append del: grows.simps)
  have "currentPosition (fst ?s) p \<le> length ?file"
    using returning_run [OF cb ret run pos g(1)] by (simp add: Let_def)
  moreover have "length ?file \<le> length a" "length a \<le> length b" "length b \<le> length c1"
    using g(2) by (simp_all add: prefix_length del: last.simps)
  ultimately have le: "currentPosition (fst ?s) p \<le> length a" "length a \<le> length c1"
    by simp_all
  have cb': "js_get (callbacks (fst ?s)) p = Some callback"
    using cb by simp
  have "fst (notifications fw p [] (evs @ handled a b c1 d)) =
        fst (notifications (fst ?s) p [] (handled a b c1 d))"
    using none by (simp add: notifications_append case_prod_beta)
  then show ?thesis
    using handled_from_offset [OF cb' ret le] by simp
qed

lemma returning_truncated:
  assumes cb: "js_get (callbacks fw) p = Some callback" and ret: "\<forall>t. callback t"
    and tr: "length c < currentPosition fw p"
    and ex: "one_at_a_time fw p [] (Change # Settled 0 (Some c) # evs)"
    and obs: "grows c (observed evs)"
  shows "(let r = notifications fw p [] (Change # Settled 0 (Some c) # evs);
              fw' = fst (fst r); es = snd r in
      notifications fw p [] [Change, Settled 0 (Some c)] =
        ((fw\<lparr>filePositions := js_set p 0 (filePositions fw)\<rparr>, []), []) \<and>
      bytes_read es = take (currentPosition fw' p) (last (c # observed evs)) \<and>
      delivered es = filter (\<lambda>t. \<not> utf8_blank t) (chunks es))"
proof -
  let ?fw = "fw\<lparr>filePositions := js_set p 0 (filePositions fw)\<rparr>"
  note t = truncated_then_run [OF cb tr]
  have cb': "js_get (callbacks ?fw) p = Some callback"
    using cb by simp
  have run: "one_at_a_time ?fw p [] evs"
    using ex t [of evs] by simp
  have pos: "currentPosition ?fw p \<le> length c"
    by simp
  have "notifications fw p [] [Change, Settled 0 (Some c)] = ((?fw, []), [])"
    using t [of "[]"] by simp
  then show ?thesis
    using returning_run [OF cb' ret run pos obs] t [of evs] by (simp add: Let_def)
qed

text \<open>
  C5, as stated, fails, also when every handler has finished before the next
  notification: the offset is advanced after the callback has returned, and a callback
  that throws leaves it where it was. The file grows from \<open>abc\<close> to \<open>abcdef\<close>; the
  callback throws on \<open>abc\<close>, and the handler of the second notification reads and
  delivers \<open>abc\<close> again.
\<close>

theorem throwing_callback_counterexample:
  "one_at_a_time (watching_at throwing 0) ''/l'' []
     (handled ''abc'' ''abc'' ''abc'' ''abc'' @ handled ''abcdef'' ''abcdef'' ''abcdef'' ''abcdef'') \<and>
   grows [] (observed
     (handled ''abc'' ''abc'' ''abc'' ''abc'' @ handled ''abcdef'' ''abcdef'' ''abcdef'' ''abcdef'')) \<and>
   snd (notifications (watching_at throwing 0) ''/l'' []
     (handled ''abc'' ''abc'' ''abc'' ''abc'' @ handled ''abcdef'' ''abcdef'' ''abcdef'' ''abcdef''))
     = [Read 0 ''abc'', Call ''abc'', Read 0 ''abcdef'', Call ''abcdef'']"
  by (simp add: handled_def start_handler_def watching_at_def js_get_def js_set_def
      currentPosition_def ws_byte_def ws_three_def Let_def throwing_def)

text \<open>
  It fails too when two handlers overlap, with a callback that returns. The first
  handler has captured the offset 0 and the size 3; the file grows to \<open>abcdef\<close>, and a
  second notification starts a handler, which captures the offset 0 as well, reads and
  delivers \<open>abcdef\<close> and sets the offset to 6; then the first handler reads and delivers
  \<open>abc\<close> and sets the offset to 3, below 6, on a file that has not been truncated.
\<close>

lemma overlapping_handlers_redeliver:
  "grows [] (observed
     [Change, Settled 0 (Some ''abc''), Change, Settled 1 (Some ''abcdef''),
      Settled 1 (Some ''abcdef''), Settled 1 (Some ''abcdef''), Settled 1 (Some ''abcdef''),
      Settled 0 (Some ''abcdef''), Settled 0 (Some ''abcdef''), Settled 0 (Some ''abcdef'')]) \<and>
   currentPosition (fst (fst (notifications (watching_at returning 0) ''/l'' []
     [Change, Settled 0 (Some ''abc''), Change, Settled 1 (Some ''abcdef''),
      Settled 1 (Some ''abcdef''), Settled 1 (Some ''abcdef'')]))) ''/l'' = 6 \<and>
   notifications (watching_at returning 0) ''/l'' []
     [Change, Settled 0 (Some ''abc''), Change, Settled 1 (Some ''abcdef''),
      Settled 1 (Some ''abcdef''), Settled 1 (Some ''abcdef''), Settled 1 (Some ''abcdef''),
      Settled 0 (Some ''abcdef''), Settled 0 (Some ''abcdef''), Settled 0 (Some ''abcdef'')]
     = ((watching_at returning 3, []),
        [Read 0 ''abcdef'', Call ''abcdef'', Read 0 ''abc'', Call ''abc''])"
  by (simp add: start_handler_def watching_at_def js_get_def js_set_def
      currentPosition_def ws_byte_def ws_three_def Let_def returning_def)

text \<open>
  C5, amended. In every run in which no change notification arrives while the handler
  of an earlier one is waiting: at every step the recorded offset does not decrease,
  except when \<open>stat\<close> finds the file smaller than the offset, and then the new offset is
  0. If moreover every call of the callback returns and the file grows by appending,
  the offset ends between the first offset and the size of the file, the bytes read are
  exactly the bytes of the file from the first offset to the last one, each once and in
  order, and the texts delivered are the chunks read that are not all white space; a
  handler that has run to its end leaves the offset at the size that its \<open>stat\<close> has
  found; and a handler that finds the file \<open>c'\<close> smaller than the offset reads and
  delivers nothing and sets the offset to 0, after which the growing file is read from
  its first byte.
\<close>

theorem offset_monotone_and_no_redelivery:
  "(one_at_a_time fw p [] (evs @ [e]) \<longrightarrow>
      (let s = fst (notifications fw p [] evs);
           fw' = fst (fst (step (fst s) p (snd s) e)) in
       currentPosition (fst s) p \<le> currentPosition fw' p \<or>
       (case e of
          Settled i (Some content) \<Rightarrow>
            length content < currentPosition (fst s) p \<and> currentPosition fw' p = 0
        | _ \<Rightarrow> False))) \<and>
   (js_get (callbacks fw) p = Some callback \<and> (\<forall>t. callback t) \<and>
    one_at_a_time fw p [] evs \<and> currentPosition fw p \<le> length c \<and>
    grows c (observed evs) \<longrightarrow>
      (let r = notifications fw p [] evs; fw' = fst (fst r); es = snd r;
           file = last (c # observed evs) in
       currentPosition fw p \<le> currentPosition fw' p \<and>
       currentPosition fw' p \<le> length file \<and>
       bytes_read es =
         take (currentPosition fw' p - currentPosition fw p) (drop (currentPosition fw p) file) \<and>
       delivered es = filter (\<lambda>t. \<not> utf8_blank t) (chunks es))) \<and>
   (js_get (callbacks fw) p = Some callback \<and> (\<forall>t. callback t) \<and>
    one_at_a_time fw p [] (evs @ handled a b c1 d) \<and> currentPosition fw p \<le> length c \<and>
    grows c (observed (evs @ handled a b c1 d)) \<longrightarrow>
      currentPosition (fst (fst (notifications fw p [] (evs @ handled a b c1 d)))) p =
        length a) \<and>
   (js_get (callbacks fw) p = Some callback \<and> (\<forall>t. callback t) \<and>
    length c' < currentPosition fw p \<and>
    one_at_a_time fw p [] (Change # Settled 0 (Some c') # evs') \<and>
    grows c' (observed evs') \<longrightarrow>
      (let r = notifications fw p [] (Change # Settled 0 (Some c') # evs');
           fw' = fst (fst r); es = snd r in
       notifications fw p [] [Change, Settled 0 (Some c')] =
         ((fw\<lparr>filePositions := js_set p 0 (filePositions fw)\<rparr>, []), []) \<and>
       bytes_read es = take (currentPosition fw' p) (last (c' # observed evs')) \<and>
       delivered es = filter (\<lambda>t. \<not> utf8_blank t) (chunks es)))"
  using offset_law [of fw p evs e] returning_run [of fw p callback "[]" evs c]
    returning_handled [of fw p callback evs a b c1 d c]
    returning_truncated [of fw p callback c' evs']
  by blast

theorem offset_monotone_and_no_redelivery_witness:
  "js_get (callbacks (watching_at returning 0)) ''/l'' = Some returning \<and>
   (\<forall>t. returning t) \<and>
   one_at_a_time (watching_at returning 0) ''/l'' []
     (handled ''ab'' ''ab'' ''abcd'' ''abcd'' @ handled ''abcd'' ''abcd'' ''abcd'' ''abcd'') \<and>
   grows [] (observed
     (handled ''ab'' ''ab'' ''abcd'' ''abcd'' @ handled ''abcd'' ''abcd'' ''abcd'' ''abcd'')) \<and>
   currentPosition (fst (fst (notifications (watching_at returning 0) ''/l'' []
     (handled ''ab'' ''ab'' ''abcd'' ''abcd'' @ handled ''abcd'' ''abcd'' ''abcd'' ''abcd'')))) ''/l''
     = 4 \<and>
   bytes_read (snd (notifications (watching_at returning 0) ''/l'' []
     (handled ''ab'' ''ab'' ''abcd'' ''abcd'' @ handled ''abcd'' ''abcd'' ''abcd'' ''abcd'')))
     = ''abcd'' \<and>
   js_get (callbacks (watching_at returning 4)) ''/l'' = Some returning \<and>
   length ''x'' < currentPosition (watching_at returning 4) ''/l'' \<and>
   one_at_a_time (watching_at returning 4) ''/l'' []
     (Change # Settled 0 (Some ''x'') # handled ''xyz'' ''xyz'' ''xyz'' ''xyz'') \<and>
   grows ''x'' (observed (handled ''xyz'' ''xyz'' ''xyz'' ''xyz'')) \<and>
   currentPosition (fst (fst (step (watching_at returning 4) ''/l''
     [AwaitStat returning 4] (Settled 0 (Some ''x''))))) ''/l'' = 0 \<and>
   bytes_read (snd (notifications (watching_at returning 4) ''/l'' []
     (Change # Settled 0 (Some ''x'') # handled ''xyz'' ''xyz'' ''xyz'' ''xyz''))) = ''xyz''"
proof -
  let ?run = "handled ''ab'' ''ab'' ''abcd'' ''abcd'' @ handled ''abcd'' ''abcd'' ''abcd'' ''abcd''"
  let ?again = "handled ''xyz'' ''xyz'' ''xyz'' ''xyz''"
  note main = offset_monotone_and_no_redelivery
  note c = watching_at_callback [of returning 0] watching_at_callback [of returning 4]
  have r: "\<forall>t. returning t"
    by (simp add: returning_def)
  have x: "one_at_a_time (watching_at returning 0) ''/l'' [] ?run"
    "one_at_a_time (watching_at returning 4) ''/l'' [] (Change # Settled 0 (Some ''x'') # ?again)"
    by (simp_all add: handled_def start_handler_def watching_at_def js_get_def js_set_def
        currentPosition_def ws_byte_def ws_three_def Let_def returning_def)
  have g: "grows [] (observed ?run)" "grows ''x'' (observed ?again)"
    by (simp_all add: handled_def)
  have a: "currentPosition (watching_at returning 0) ''/l'' \<le> length ([] :: string)"
    "length ''x'' < currentPosition (watching_at returning 4) ''/l''"
    by (simp_all add: watching_at_position)
  have l: "last ([] # observed ?run) = ''abcd''" "last (''x'' # observed ?again) = ''xyz''"
    by (simp_all add: handled_def)
  have s: "fst (notifications (watching_at returning 4) ''/l'' [] [Change]) =
      (watching_at returning 4, [AwaitStat returning 4])"
    by (simp add: start_handler_def watching_at_def js_get_def currentPosition_def)
  have off: "currentPosition (fst (fst (notifications (watching_at returning 0) ''/l'' [] ?run)))
      ''/l'' = 4"
    using main [where fw = "watching_at returning 0" and p = "''/l''" and callback = returning
        and c = "[]" and evs = "handled ''ab'' ''ab'' ''abcd'' ''abcd''" and a = "''abcd''"
        and b = "''abcd''" and ?c1.0 = "''abcd''" and d = "''abcd''"]
      c(1) r x(1) a(1) g(1)
    by simp
  have bytes: "bytes_read (snd (notifications (watching_at returning 0) ''/l'' [] ?run)) = ''abcd''"
    using main [where fw = "watching_at returning 0" and p = "''/l''" and callback = returning
        and c = "[]" and evs = ?run]
      c(1) r x(1) a(1) g(1) off l(1)
    by (simp add: Let_def watching_at_position)
  have law: "currentPosition (fst (fst (step (watching_at returning 4) ''/l''
      [AwaitStat returning 4] (Settled 0 (Some ''x''))))) ''/l'' = 0"
    using main [where fw = "watching_at returning 4" and p = "''/l''" and evs = "[Change]"
        and e = "Settled 0 (Some ''x'')"] x(2) s
    by (simp add: Let_def watching_at_position handled_def case_prod_beta)
  have restart: "bytes_read (snd (notifications (watching_at returning 4) ''/l'' []
      (Change # Settled 0 (Some ''x'') # ?again))) = ''xyz''"
  proof -
    have "currentPosition (fst (fst (notifications (watching_at returning 4) ''/l'' []
        (Change # Settled 0 (Some ''x'') # ?again)))) ''/l'' = 3"
      by (simp add: handled_def start_handler_def watching_at_def js_get_def js_set_def
          currentPosition_def ws_byte_def ws_three_def Let_def returning_def)
    then show ?thesis
      using main [where fw = "watching_at returning 4" and p = "''/l''" and callback = returning
          and c' = "''x''" and evs' = ?again]
        c(2) r a(2) x(2) g(2) l(2)
      by (simp add: Let_def)
  qed
  show ?thesis
    using c r x g a off bytes law restart by simp
qed
section \<open>McpIntegrator: the cooldown of a trigger key\<close>







lemma fired_once_by_trigger:
  "fst (trigger new_integrator (at_instant 0) (Sequential ''%3'' ''error_analysis'')) = fired_once"
  by (simp add: triggerSequentialAnalysis_def Let_def new_integrator_def debounced_def
      js_get_def js_set_def sequential_key_def at_instant_def fired_once_def)


section \<open>ErrorWatcher: what the error queries return\<close>

lemma errorCache_startBuildWatcher [simp]:
  "errorCache (startBuildWatcher ew pane) = errorCache ew"
  by (simp add: startBuildWatcher_def split: option.splits)

lemma watchedPanes_startBuildWatcher [simp]:
  "watchedPanes (startBuildWatcher ew pane) = watchedPanes ew"
  by (simp add: startBuildWatcher_def split: option.splits)

lemma errorCache_startWatching:
  "errorCache (fst (startWatching ew pane callback file)) = errorCache ew"
  by (simp add: startWatching_def Let_def split: option.splits sum.splits)

lemma watched_after_startWatching:
  "pane_id pane \<in> set (getWatchedPanes (fst (startWatching ew pane callback file)))"
  by (simp add: startWatching_def getWatchedPanes_def Let_def split: option.splits sum.splits)

text \<open>
  C9, as stated, fails. \<open>startWatching\<close> records the pane in \<open>watchedPanes\<close> and creates
  no entry in \<open>errorCache\<close>; \<open>getErrors\<close> and \<open>getErrorSummary\<close> read \<open>errorCache\<close> only.
  For the pane \<open>dev:0.0\<close>, watched and without errors in one state and never watched in
  the other, both queries give the same empty list and the same zero counts.
\<close>

theorem watched_and_unwatched_counterexample:
  "''dev:0.0'' \<in> set (getWatchedPanes (fst (startWatching new_error_watcher shell_pane returning None))) \<and>
   ''dev:0.0'' \<notin> set (getWatchedPanes new_error_watcher) \<and>
   getErrors (fst (startWatching new_error_watcher shell_pane returning None)) ''dev:0.0'' = [] \<and>
   getErrors new_error_watcher ''dev:0.0'' = [] \<and>
   getErrorSummary (fst (startWatching new_error_watcher shell_pane returning None)) (Some ''dev:0.0'')
     = \<lparr>total_count = 0, errors_count = 0, warnings_count = 0\<rparr> \<and>
   getErrorSummary new_error_watcher (Some ''dev:0.0'') = \<lparr>total_count = 0, errors_count = 0, warnings_count = 0\<rparr>"
proof -
  have w: "''dev:0.0'' \<in> set (getWatchedPanes (fst (startWatching new_error_watcher shell_pane returning None)))"
    using watched_after_startWatching [of shell_pane new_error_watcher returning None]
    by (simp add: shell_pane_def)
  have c: "errorCache (fst (startWatching new_error_watcher shell_pane returning None)) = []"
    by (simp add: errorCache_startWatching new_error_watcher_def)
  show ?thesis
    using w c
    by (simp add: getErrors_def getErrorSummary_def count_entries_def js_get_def
        getWatchedPanes_def new_error_watcher_def)
qed

lemma getErrors_addError:
  "getErrors (addError ew error) paneId =
     (if paneId = entry_paneId error
      then (let errors = getErrors ew (entry_paneId error) @ [error]
            in drop (length errors - 100) errors)
      else getErrors ew paneId)"
  by (simp add: getErrors_def addError_def js_get_def js_set_def update_conv' Let_def
      split: option.splits)

lemma cached_errors:
  assumes "js_get (errorCache ew) paneId = Some es"
  shows "getErrors ew paneId = es"
    and "paneId \<noteq> [] \<Longrightarrow> getErrorSummary ew (Some paneId) =
           \<lparr>total_count = length es,
            errors_count = length (filter (\<lambda>e. entry_type e = Error) es),
            warnings_count = length (filter (\<lambda>e. entry_type e = Warning) es)\<rparr>"
  using assms by (simp_all add: getErrors_def getErrorSummary_def count_entries_def)

text \<open>
  C9, amended. \<open>getErrors\<close> gives the errors cached for a pane and \<open>getErrorSummary\<close> their
  counts: the list that \<open>errorCache\<close> holds for the pane, which \<open>addError\<close> extends by the
  new entry and cuts to its last 100, leaving the other panes as they are. Neither
  query depends on \<open>watchedPanes\<close>, and \<open>startWatching\<close> leaves the cache and the answers
  of both as they are. A pane with no cached error gives the empty list and zero counts,
  watched or not; what tells a watched pane from one never watched is \<open>getWatchedPanes\<close>,
  which holds the pane after \<open>startWatching\<close>, also when \<open>watchFile\<close> has thrown.
\<close>

theorem error_queries_ignore_the_watch:
  "getErrors (ew\<lparr>watchedPanes := w\<rparr>) paneId = getErrors ew paneId \<and>
   getErrorSummary (ew\<lparr>watchedPanes := w\<rparr>) p = getErrorSummary ew p \<and>
   errorCache (fst (startWatching ew pane callback file)) = errorCache ew \<and>
   getErrors (fst (startWatching ew pane callback file)) paneId = getErrors ew paneId \<and>
   getErrorSummary (fst (startWatching ew pane callback file)) p = getErrorSummary ew p \<and>
   pane_id pane \<in> set (getWatchedPanes (fst (startWatching ew pane callback file))) \<and>
   (js_get (errorCache ew) paneId = None \<and> paneId \<noteq> [] \<longrightarrow>
      getErrors ew paneId = [] \<and>
      getErrorSummary ew (Some paneId) = \<lparr>total_count = 0, errors_count = 0, warnings_count = 0\<rparr>) \<and>
   (js_get (errorCache ew) paneId = Some es \<longrightarrow>
      getErrors ew paneId = es \<and>
      (paneId \<noteq> [] \<longrightarrow>
         getErrorSummary ew (Some paneId) =
           \<lparr>total_count = length es,
            errors_count = length (filter (\<lambda>e. entry_type e = Error) es),
            warnings_count = length (filter (\<lambda>e. entry_type e = Warning) es)\<rparr>)) \<and>
   getErrors (addError ew error) (entry_paneId error) =
     (let errors = getErrors ew (entry_paneId error) @ [error]
      in drop (length errors - 100) errors) \<and>
   (paneId \<noteq> entry_paneId error \<longrightarrow> getErrors (addError ew error) paneId = getErrors ew paneId)"
proof -
  have cache: "errorCache (fst (startWatching ew pane callback file)) = errorCache ew"
    by (rule errorCache_startWatching)
  have same: "getErrors (fst (startWatching ew pane callback file)) paneId = getErrors ew paneId"
    "getErrorSummary (fst (startWatching ew pane callback file)) p = getErrorSummary ew p"
    using cache by (simp_all add: getErrors_def getErrorSummary_def split: option.splits)
  have update: "getErrors (ew\<lparr>watchedPanes := w\<rparr>) paneId = getErrors ew paneId"
    "getErrorSummary (ew\<lparr>watchedPanes := w\<rparr>) p = getErrorSummary ew p"
    by (simp_all add: getErrors_def getErrorSummary_def split: option.splits)
  have none: "js_get (errorCache ew) paneId = None \<and> paneId \<noteq> [] \<longrightarrow>
      getErrors ew paneId = [] \<and>
      getErrorSummary ew (Some paneId) = \<lparr>total_count = 0, errors_count = 0, warnings_count = 0\<rparr>"
    by (simp add: getErrors_def getErrorSummary_def count_entries_def)
  show ?thesis
    using cache same update none cached_errors [of ew paneId es]
      getErrors_addError [of ew error] watched_after_startWatching [of pane ew callback "file"]
    by simp
qed

theorem error_queries_ignore_the_watch_witness:
  "js_get (errorCache (addError (addError new_error_watcher property_error) unused_warning))
     ''dev:0.0'' = Some [property_error, unused_warning] \<and>
   getErrors (addError (addError new_error_watcher property_error) unused_warning) ''dev:0.0''
     = [property_error, unused_warning] \<and>
   getErrorSummary (addError (addError new_error_watcher property_error) unused_warning)
     (Some ''dev:0.0'') = \<lparr>total_count = 2, errors_count = 1, warnings_count = 1\<rparr> \<and>
   getErrors (fst (startWatching
       (addError (addError new_error_watcher property_error) unused_warning)
       shell_pane returning None)) ''dev:0.0''
     = [property_error, unused_warning] \<and>
   js_get (errorCache new_error_watcher) ''dev:0.0'' = None \<and>
   getErrors new_error_watcher ''dev:0.0'' = [] \<and>
   getErrorSummary new_error_watcher (Some ''dev:0.0'')
     = \<lparr>total_count = 0, errors_count = 0, warnings_count = 0\<rparr> \<and>
   getErrors (addError new_error_watcher property_error) ''dev:0.1'' = []"
proof -
  let ?ew = "addError (addError new_error_watcher property_error) unused_warning"
  note main = error_queries_ignore_the_watch
  have c: "js_get (errorCache ?ew) ''dev:0.0'' = Some [property_error, unused_warning]"
    by (simp add: addError_def new_error_watcher_def js_get_def js_set_def Let_def
        property_error_def unused_warning_def)
  have n: "js_get (errorCache new_error_watcher) ''dev:0.0'' = None"
    by (simp add: new_error_watcher_def js_get_def)
  have t: "entry_type property_error = Error" "entry_type unused_warning = Warning"
    "entry_paneId property_error = ''dev:0.0''"
    by (simp_all add: property_error_def unused_warning_def)
  have hit: "getErrors ?ew ''dev:0.0'' = [property_error, unused_warning] \<and>
      getErrorSummary ?ew (Some ''dev:0.0'')
        = \<lparr>total_count = 2, errors_count = 1, warnings_count = 1\<rparr> \<and>
      getErrors (fst (startWatching ?ew shell_pane returning None)) ''dev:0.0''
        = [property_error, unused_warning]"
    using main [where ew = ?ew and paneId = "''dev:0.0''"
        and es = "[property_error, unused_warning]" and pane = shell_pane
        and callback = returning and ?file = None] c t
    by simp
  have miss: "getErrors new_error_watcher ''dev:0.0'' = [] \<and>
      getErrorSummary new_error_watcher (Some ''dev:0.0'')
        = \<lparr>total_count = 0, errors_count = 0, warnings_count = 0\<rparr>"
    using main [where ew = new_error_watcher and paneId = "''dev:0.0''"] n
    by simp
  have other: "getErrors (addError new_error_watcher property_error) ''dev:0.1'' = []"
    using main [where ew = new_error_watcher and paneId = "''dev:0.1''"
        and error = property_error] t(3)
    by (simp add: getErrors_def new_error_watcher_def js_get_def)
  show ?thesis
    using c n hit miss other by simp
qed
section \<open>The matcher on literal words, and the search\<close>

lemma matches_Empty_fun: "matches fl Empty = (\<lambda>st. [st])"
  by (rule ext) simp

lemma matches_seq_Cons:
  "matches fl (seq (r # rs)) st = concat (map (matches fl (seq rs)) (matches fl r st))"
  by (cases rs) (simp_all add: matches_Empty_fun)

lemma matches_lit_Cons:
  "matches fl (lit (c # w)) st =
     concat (map (matches fl (lit w)) (step_char (same_char fl c) st))"
  unfolding lit_def list.map matches_seq_Cons by simp

lemma matches_lit:
  "matches fl (lit w) st =
     (if starts_ci fl w (m_rest st)
      then [st\<lparr>m_pos := m_pos st + length w, m_rest := drop (length w) (m_rest st)\<rparr>]
      else [])"
proof (induction w arbitrary: st)
  case Nil
  show ?case by (simp add: lit_def)
next
  case (Cons c w)
  show ?case
  proof (cases "m_rest st")
    case Nil
    then show ?thesis
      by (simp add: matches_lit_Cons step_char_def)
  next
    case (Cons d s)
    then show ?thesis
      by (simp add: matches_lit_Cons step_char_def Cons.IH)
  qed
qed

lemma starts_ci_append:
  "starts_ci fl (v @ w) s \<longleftrightarrow> starts_ci fl v s \<and> starts_ci fl w (drop (length v) s)"
  by (induction fl v s rule: starts_ci.induct) auto

lemma starts_ci_length: "starts_ci fl w s \<Longrightarrow> length w \<le> length s"
  by (induction fl w s rule: starts_ci.induct) auto

lemma starts_ci_mono:
  "starts_ci fl w s \<Longrightarrow> list_all2 (\<lambda>a b. \<forall>d. same_char fl a d \<longrightarrow> same_char fl b d) w w' \<Longrightarrow>
   starts_ci fl w' s"
proof (induction fl w s arbitrary: w' rule: starts_ci.induct)
  case (1 fl s)
  then show ?case by simp
next
  case (2 fl c w)
  then show ?case by simp
next
  case (3 fl c w d s)
  then show ?case by (cases w') auto
qed

lemma search_None:
  "search_from fl r p s = None \<Longrightarrow> k \<le> length s \<Longrightarrow>
     matches fl r \<lparr>m_pos = p + k, m_rest = drop k s, m_caps = []\<rparr> = []"
proof (induction s arbitrary: p k)
  case Nil
  then show ?case by (simp split: list.splits)
next
  case (Cons c cs)
  show ?case
  proof (cases k)
    case 0
    then show ?thesis using Cons.prems by (simp split: list.splits)
  next
    case (Suc j)
    then have "search_from fl r (Suc p) cs = None" "j \<le> length cs"
      using Cons.prems by (simp_all split: list.splits)
    then show ?thesis
      using Cons.IH [of "Suc p" j] Suc by simp
  qed
qed

lemma search_Some:
  "search_from fl r p s = Some m \<Longrightarrow>
     \<exists>k\<le>length s. matches fl r \<lparr>m_pos = p + k, m_rest = drop k s, m_caps = []\<rparr> \<noteq> []"
proof (induction s arbitrary: p)
  case Nil
  then show ?case by (auto split: list.splits)
next
  case (Cons c cs)
  show ?case
  proof (cases "matches fl r \<lparr>m_pos = p, m_rest = c # cs, m_caps = []\<rparr>")
    case Nil
    then have "search_from fl r (Suc p) cs = Some m"
      using Cons.prems by simp
    then obtain k where "k \<le> length cs"
      "matches fl r \<lparr>m_pos = Suc p + k, m_rest = drop k cs, m_caps = []\<rparr> \<noteq> []"
      using Cons.IH by blast
    then show ?thesis
      by (intro exI [of _ "Suc k"]) simp
  next
    case (Cons a list)
    then show ?thesis
      by (intro exI [of _ 0]) simp
  qed
qed

lemma first_match_append:
  "first_match (ps @ qs) line =
     (case first_match ps line of None \<Rightarrow> first_match qs line | Some x \<Rightarrow> Some x)"
  by (induction ps) (simp_all split: option.splits)

lemma first_match_in: "first_match ps line = Some (p, m) \<Longrightarrow> p \<in> set ps"
  by (induction ps) (auto split: option.splits)

lemma first_match_some:
  "p \<in> set ps \<Longrightarrow> js_match (pattern_flags p) (pattern_regex p) line \<noteq> None \<Longrightarrow>
   first_match ps line \<noteq> None"
  by (induction ps) (auto split: option.splits)

section \<open>LogAnalyzer: the seeded patterns on two lines\<close>

lemma typescript_match:
  "js_match flag_i (pattern_regex typescript_pattern) typescript_line =
     Some [(0, typescript_line),
           (5, ''Property '' @ [CHR 0x27] @ ''foo'' @ [CHR 0x27] @ '' does not exist on type '' @
               [CHR 0x27] @ ''string'' @ [CHR 0x27] @ ''.''),
           (4, ''error''), (3, ''10''), (2, ''42''), (1, ''src/index.ts'')]"
  by code_simp

lemma parse_42_10: "parseInt_auto (Some ''42'') = Some 42" "parseInt_auto (Some ''10'') = Some 10"
  by code_simp+

lemma typescript_first:
  "first_match errorPatterns typescript_line =
     Some (typescript_pattern,
           the (js_match flag_i (pattern_regex typescript_pattern) typescript_line))"
proof -
  have f: "pattern_flags typescript_pattern = flag_i"
    by (simp add: typescript_pattern_def)
  show ?thesis
    unfolding errorPatterns_def first_match.simps f typescript_match by simp
qed

text \<open>
  C6. The first pattern of the seeded list is \<open>typescript\<close>, and it matches the line
  \<open>src/index.ts(42,10): error TS2339: Property 'foo' does not exist on type 'string'.\<close>;
  for every log file path, line number and instant, \<open>matchErrorPatterns\<close> returns an entry
  of type error, language typescript, file \<open>src/index.ts\<close>, line 42 and column 10.
\<close>

theorem typescript_line_classified:
  "hd errorPatterns = typescript_pattern \<and>
   js_test (pattern_flags typescript_pattern) (pattern_regex typescript_pattern)
     typescript_line \<and>
   map_option (\<lambda>e. (entry_type e, entry_language e, entry_file e, entry_line e, entry_column e))
     (matchErrorPatterns errorPatterns typescript_line filePath lineNumber now stamp) =
     Some (Error, Some ''typescript'', Some ''src/index.ts'', Some (Some 42), Some (Some 10))"
proof -
  have f: "pattern_flags typescript_pattern = flag_i"
    by (simp add: typescript_pattern_def)
  have t: "js_test (pattern_flags typescript_pattern) (pattern_regex typescript_pattern)
      typescript_line"
    unfolding f js_test_def typescript_match by simp
  have g: "file_group typescript_pattern = Some 1" "line_group typescript_pattern = Some 2"
    "column_group typescript_pattern = Some 3" "pattern_type typescript_pattern = Error"
    "pattern_language typescript_pattern = Some ''typescript''"
    by (simp_all add: typescript_pattern_def)
  have m: "map_option
      (\<lambda>e. (entry_type e, entry_language e, entry_file e, entry_line e, entry_column e))
      (matchErrorPatterns errorPatterns typescript_line filePath lineNumber now stamp) =
      Some (Error, Some ''typescript'', Some ''src/index.ts'', Some (Some 42), Some (Some 10))"
    unfolding matchErrorPatterns_def typescript_first typescript_match
    by (simp add: g optional_group_def match_group_def parse_42_10)
  show ?thesis
    using t m by (simp add: errorPatterns_def)
qed

lemma starts_ci_Error_upper:
  assumes "starts_ci flag_i ''Error'' s"
  shows "starts_ci flag_i ''ERROR'' s"
  using assms
  by (rule starts_ci_mono) (simp add: same_char_def flag_i_def canonical_def)

lemma general_error_matches:
  assumes "starts_ci flag_i ''ERROR'' (m_rest st)"
  shows "matches flag_i (pattern_regex general_error_pattern) st \<noteq> []"
  using assms by (simp add: general_error_pattern_def matches_lit)

lemma docker_needs_Error:
  assumes "matches flag_i (pattern_regex docker_error_pattern) st \<noteq> []"
  shows "starts_ci flag_i ''Error'' (drop (length ''docker: '') (m_rest st))"
proof -
  have "matches flag_i (lit ''docker: Error response from daemon: '') st \<noteq> []"
    using assms by (auto simp: docker_error_pattern_def)
  then have "starts_ci flag_i (''docker: '' @ ''Error'' @ '' response from daemon: '') (m_rest st)"
    by (simp add: matches_lit split: if_splits)
  then show ?thesis
    unfolding starts_ci_append by blast
qed

lemma docker_shadowed:
  assumes "js_match flag_i (pattern_regex docker_error_pattern) line = Some m"
  shows "js_match flag_i (pattern_regex general_error_pattern) line \<noteq> None"
proof
  let ?n = "length ''docker: ''"
  assume n: "js_match flag_i (pattern_regex general_error_pattern) line = None"
  from assms obtain k where k: "k \<le> length line"
    "matches flag_i (pattern_regex docker_error_pattern)
       \<lparr>m_pos = 0 + k, m_rest = drop k line, m_caps = []\<rparr> \<noteq> []"
    unfolding js_match_def using search_Some by blast
  have e: "starts_ci flag_i ''Error'' (drop ?n (drop k line))"
    using docker_needs_Error [OF k(2)] by simp
  then have "length ''Error'' \<le> length (drop ?n (drop k line))"
    by (rule starts_ci_length)
  then have le: "k + ?n \<le> length line"
    by simp
  have d: "drop ?n (drop k line) = drop (k + ?n) line"
    by (simp only: drop_drop add.commute)
  have "starts_ci flag_i ''ERROR'' (drop (k + ?n) line)"
    using starts_ci_Error_upper [OF e] unfolding d .
  then have "matches flag_i (pattern_regex general_error_pattern)
       \<lparr>m_pos = 0 + (k + ?n), m_rest = drop (k + ?n) line, m_caps = []\<rparr> \<noteq> []"
    by (intro general_error_matches) simp
  then show False
    using search_None [OF n [unfolded js_match_def] le] by blast
qed

lemma errorPatterns_split:
  "errorPatterns =
     [typescript_pattern, javascript_pattern, python_pattern, rust_pattern, go_pattern,
      general_error_pattern] @
     [general_warning_pattern, npm_error_pattern, docker_error_pattern]"
  by (simp add: errorPatterns_def)

lemma docker_never_first:
  "first_match errorPatterns line \<noteq> Some (docker_error_pattern, m)"
proof
  assume a: "first_match errorPatterns line = Some (docker_error_pattern, m)"
  let ?first = "[typescript_pattern, javascript_pattern, python_pattern, rust_pattern,
      go_pattern, general_error_pattern]"
  have n: "pattern_name docker_error_pattern \<notin> pattern_name ` set ?first"
    by (simp add: typescript_pattern_def javascript_pattern_def python_pattern_def
        rust_pattern_def go_pattern_def general_error_pattern_def docker_error_pattern_def)
  show False
  proof (cases "first_match ?first line")
    case (Some x)
    then have "first_match errorPatterns line = Some x"
      unfolding errorPatterns_split first_match_append by simp
    then have "first_match ?first line = Some (docker_error_pattern, m)"
      using a Some by simp
    then have "docker_error_pattern \<in> set ?first"
      by (rule first_match_in)
    then show False
      using n by blast
  next
    case None
    have f: "pattern_flags general_error_pattern = flag_i"
      by (simp add: general_error_pattern_def)
    have "general_error_pattern \<in> set ?first"
      by simp
    then have "js_match (pattern_flags general_error_pattern)
        (pattern_regex general_error_pattern) line = None"
      using None first_match_some by blast
    then have g: "js_match flag_i (pattern_regex general_error_pattern) line = None"
      unfolding f .
    have "first_match [general_warning_pattern, npm_error_pattern, docker_error_pattern] line
        = Some (docker_error_pattern, m)"
      using a None unfolding errorPatterns_split first_match_append by simp
    then have "js_match (pattern_flags docker_error_pattern)
        (pattern_regex docker_error_pattern) line = Some m"
      by (simp split: option.splits)
    moreover have "pattern_flags docker_error_pattern = flag_i"
      by (simp add: docker_error_pattern_def)
    ultimately have "js_match flag_i (pattern_regex docker_error_pattern) line = Some m"
      by simp
    then show False
      using docker_shadowed g by blast
  qed
qed

lemma contains_test:
  assumes "contains_ci line w"
    and "\<And>st. starts_ci flag_i w (m_rest st) \<Longrightarrow> matches flag_i r st \<noteq> []"
  shows "js_test flag_i r line"
proof -
  from assms(1) have "\<exists>k\<le>length line. starts_ci flag_i w (drop k line)"
    unfolding contains_ci_def list_ex_iff by (metis atLeastLessThan_iff less_Suc_eq_le set_upt)
  then obtain k where k: "k \<le> length line" "starts_ci flag_i w (drop k line)"
    by blast
  then have "matches flag_i r \<lparr>m_pos = 0 + k, m_rest = drop k line, m_caps = []\<rparr> \<noteq> []"
    by (intro assms(2)) simp
  then show ?thesis
    unfolding js_test_def js_match_def using search_None [OF _ k(1)] by blast
qed

lemma error_word_matches:
  assumes "w \<in> set error_vocabulary" "starts_ci flag_i w (m_rest st)"
  shows "matches flag_i (pattern_regex general_error_pattern) st \<noteq> []"
  using assms by (auto simp: error_vocabulary_def general_error_pattern_def matches_lit)

lemma warning_word_matches:
  assumes "w \<in> set warning_vocabulary" "starts_ci flag_i w (m_rest st)"
  shows "matches flag_i (pattern_regex general_warning_pattern) st \<noteq> []"
  using assms by (auto simp: warning_vocabulary_def general_warning_pattern_def matches_lit)

text \<open>
  Whatever the order of the list, a line that contains a word of the failure vocabulary
  is classified: one of the two generic patterns matches it, so some pattern is the
  first to match.
\<close>

lemma vocabulary_line_is_classified:
  assumes "w \<in> set (error_vocabulary @ warning_vocabulary)" "contains_ci line w"
  shows "matchErrorPatterns errorPatterns line filePath lineNumber now stamp \<noteq> None"
proof -
  have f: "pattern_flags general_error_pattern = flag_i"
    "pattern_flags general_warning_pattern = flag_i"
    by (simp_all add: general_error_pattern_def general_warning_pattern_def)
  have i: "general_error_pattern \<in> set errorPatterns" "general_warning_pattern \<in> set errorPatterns"
    by (simp_all add: errorPatterns_def)
  have "first_match errorPatterns line \<noteq> None"
  proof (cases "w \<in> set error_vocabulary")
    case True
    then have "js_test flag_i (pattern_regex general_error_pattern) line"
      using contains_test [OF assms(2)] error_word_matches by blast
    then show ?thesis
      using first_match_some [OF i(1)] by (simp add: f js_test_def)
  next
    case False
    then have "w \<in> set warning_vocabulary"
      using assms(1) by simp
    then have "js_test flag_i (pattern_regex general_warning_pattern) line"
      using contains_test [OF assms(2)] warning_word_matches by blast
    then show ?thesis
      using first_match_some [OF i(2)] by (simp add: f js_test_def)
  qed
  then show ?thesis
    by (auto simp: matchErrorPatterns_def split: option.splits)
qed

text \<open>
  C7 at the failing input. The seeded list has nine patterns; \<open>general_error\<close> and
  \<open>general_warning\<close> are the sixth and the seventh, before \<open>npm_error\<close> and
  \<open>docker_error\<close>. The pattern \<open>docker_error\<close> matches the line
  \<open>docker: Error response from daemon: conflict\<close>, but \<open>general_error\<close> comes first and
  matches \<open>Error\<close>: the entry has no language and the message \<open>Error\<close>. The same
  happens on every line: a line that \<open>docker_error\<close> matches holds \<open>Error\<close>, so
  \<open>docker_error\<close> is never the first pattern to match.
\<close>

theorem generic_patterns_precede_docker_pattern:
  "map pattern_name errorPatterns =
     [''typescript'', ''javascript'', ''python'', ''rust'', ''go'', ''general_error'',
      ''general_warning'', ''npm_error'', ''docker_error''] \<and>
   js_test (pattern_flags docker_error_pattern) (pattern_regex docker_error_pattern)
     docker_line \<and>
   map_option (\<lambda>e. (entry_type e, entry_language e, entry_message e))
     (matchErrorPatterns errorPatterns docker_line ''/logs/dev_0_0.log'' 7 0 0) =
     Some (Error, None, ''Error'') \<and>
   first_match errorPatterns line \<noteq> Some (docker_error_pattern, m)"
proof -
  have "map pattern_name errorPatterns =
     [''typescript'', ''javascript'', ''python'', ''rust'', ''go'', ''general_error'',
      ''general_warning'', ''npm_error'', ''docker_error''] \<and>
   js_test (pattern_flags docker_error_pattern) (pattern_regex docker_error_pattern)
     docker_line \<and>
   map_option (\<lambda>e. (entry_type e, entry_language e, entry_message e))
     (matchErrorPatterns errorPatterns docker_line ''/logs/dev_0_0.log'' 7 0 0) =
     Some (Error, None, ''Error'')"
    by code_simp
  then show ?thesis
    using docker_never_first by blast
qed

section \<open>validateCommand looks at the final path component\<close>





















end
